theory Spec2Isabelle
  imports Main
begin

section \<open>Values\<close>

text \<open>
  JavaScript values as far as the query compiler and the schema synthesizer handle them.
  Numbers are the integer-valued ones; objects are association lists in property
  enumeration order. \<open>JSelect alias field\<close> is the one query-builder object that the
  compiler stores inside query data: \<^verbatim>\<open>squel.select().from(alias).field(field)\<close>.
\<close>

datatype jval =
    JUndefined
  | JNull
  | JBool bool
  | JNum int
  | JStr string
  | JArr "jval list"
  | JObj "(string \<times> jval) list"
  | JSelect string string

datatype error =
    InvalidScope
  | TypeError string
  | SquelError string

type_synonym obj = "(string \<times> jval) list"

text \<open>Assignment \<^verbatim>\<open>o[k] = v\<close>: an existing key keeps its position, a new key goes last.\<close>

fun assign :: "string \<Rightarrow> jval \<Rightarrow> obj \<Rightarrow> obj" where
  "assign k v [] = [(k, v)]"
| "assign k v ((k', v') # kvs) =
     (if k' = k then (k, v) # kvs else (k', v') # assign k v kvs)"

text \<open>\<^verbatim>\<open>Object.assign(target, source)\<close>; a source that is not an object contributes nothing.\<close>

fun object_assign :: "obj \<Rightarrow> jval \<Rightarrow> obj" where
  "object_assign target (JObj kvs) = foldl (\<lambda>acc (k, v). assign k v acc) target kvs"
| "object_assign target _ = target"

text \<open>Ramda's \<^verbatim>\<open>mergeAll\<close> and \<^verbatim>\<open>merge\<close>.\<close>

definition mergeAll :: "jval list \<Rightarrow> obj" where
  "mergeAll xs = foldl object_assign [] xs"

definition merge :: "obj \<Rightarrow> obj \<Rightarrow> obj" where
  "merge l r = mergeAll [JObj l, JObj r]"

section \<open>Discovery scope\<close>

text \<open>
  \<^verbatim>\<open>type Scope = true | { only: string[] } | { except: string[] }\<close>; an optional scope is
  \<open>None\<close> when it is absent. \<open>Other\<close> stands for any further truthy value that reaches
  the function at run time, for which the source throws.
\<close>

datatype scope = ScopeAll | ScopeOnly "string list" | ScopeExcept "string list" | ScopeOther


text \<open>
  \<^verbatim>\<open>scopeTerm\<close> builds the same decision as a term of the catalogue query. The model
  keeps the call it makes to the formatter: the template and the values.
\<close>

datatype format_arg = FName string | FCsv "string list"

fun scopeTerm :: "string \<Rightarrow> scope option \<Rightarrow> error + string \<times> format_arg list" where
  "scopeTerm name None = Inr (''FALSE'', [FName name])"
| "scopeTerm name (Some ScopeAll) = Inr (''TRUE'', [FName name])"
| "scopeTerm name (Some (ScopeOnly only)) = Inr (''$1:name IN ($2:csv)'', [FName name, FCsv only])"
| "scopeTerm name (Some (ScopeExcept except)) =
     Inr (''$1:name NOT IN ($2:csv)'', [FName name, FCsv except])"
| "scopeTerm name (Some ScopeOther) = Inl InvalidScope"

section \<open>Schema synthesizer\<close>

datatype column_default = DefaultNull | DefaultString string | DefaultNumber int

record column =
  name :: string
  type :: string
  nullable :: bool
  default :: column_default
  isprimarykey :: bool
  constraints :: "string option list option"

record options =
  strictNumbers :: bool

definition TYPE_STRING_INTEGER :: jval where
  "TYPE_STRING_INTEGER =
     JObj [(''type'', JStr ''string''), (''pattern'', JStr (''^'' @ [CHR 0x5C] @ ''d+$''))]"

text \<open>The pattern is written in the source without doubled backslashes, so they are lost.\<close>

definition TYPE_STRING_DECIMAL :: jval where
  "TYPE_STRING_DECIMAL =
     JObj [(''type'', JStr ''string''), (''pattern'', JStr ''^[1-9]d*(.d+)?$'')]"

definition TYPE_NUMBER :: jval where
  "TYPE_NUMBER = JObj [(''type'', JStr ''number'')]"

definition DATE_TIME :: jval where
  "DATE_TIME = JObj [(''type'', JStr ''string''), (''format'', JStr ''date-time'')]"

definition BASE_TYPES :: obj where
  "BASE_TYPES =
    [(''bigserial'', TYPE_STRING_INTEGER),
     (''boolean'', JObj [(''type'', JStr ''boolean'')]),
     (''character'', JObj [(''type'', JStr ''string'')]),
     (''bigint'', TYPE_STRING_INTEGER),
     (''json'', JObj [(''type'', JStr ''object'')]),
     (''jsonb'', JObj [(''type'', JStr ''object'')]),
     (''text'', JObj [(''type'', JStr ''string'')]),
     (''interval'', JObj
        [(''type'', JStr ''object''),
         (''format'', JStr ''interval''),
         (''minProperties'', JNum 1),
         (''additionalProperties'', JBool False),
         (''properties'', JObj
            [(''milliseconds'', TYPE_NUMBER),
             (''seconds'', TYPE_NUMBER),
             (''minutes'', TYPE_NUMBER),
             (''hours'', TYPE_NUMBER),
             (''days'', TYPE_NUMBER),
             (''months'', TYPE_NUMBER),
             (''years'', TYPE_NUMBER)])]),
     (''character varying'', JObj [(''type'', JStr ''string'')]),
     (''date'', DATE_TIME),
     (''time without time zone'', DATE_TIME),
     (''time with time zone'', DATE_TIME),
     (''timestamp without time zone'', DATE_TIME),
     (''timestamp with time zone'', DATE_TIME)]"

text \<open>The lookup table of \<^verbatim>\<open>columnType\<close>, which depends on \<^verbatim>\<open>options.strictNumbers\<close>.\<close>

definition types :: "options \<Rightarrow> obj" where
  "types opts =
    (let TYPE_INTEGER = (if strictNumbers opts then TYPE_NUMBER
                         else JObj [(''oneOf'', JArr [TYPE_NUMBER, TYPE_STRING_INTEGER])]);
         TYPE_DECIMAL = (if strictNumbers opts then TYPE_NUMBER
                         else JObj [(''oneOf'', JArr [TYPE_NUMBER, TYPE_STRING_DECIMAL])])
     in merge BASE_TYPES
           [(''integer'', TYPE_INTEGER),
            (''numeric'', TYPE_DECIMAL),
            (''real'', TYPE_DECIMAL),
            (''smallint'', TYPE_INTEGER),
            (''smallserial'', TYPE_INTEGER),
            (''serial'', TYPE_INTEGER),
            (''double precision'', TYPE_DECIMAL)])"

text \<open>
  A type that the table does not list gives \<^verbatim>\<open>undefined\<close> (the members that the table
  object inherits from its prototype are not in the model).
\<close>

definition columnType :: "column \<Rightarrow> options \<Rightarrow> jval" where
  "columnType c opts = (case map_of (types opts) (type c) of None \<Rightarrow> JUndefined | Some t \<Rightarrow> t)"

text \<open>\<^verbatim>\<open>String.prototype.startsWith\<close>.\<close>

definition startsWith :: "string \<Rightarrow> string \<Rightarrow> bool" where
  "startsWith s p = (take (length p) s = p)"

definition isReadOnly :: "column \<Rightarrow> jval" where
  "isReadOnly c =
    (let isPrimary = (isprimarykey c \<and> nullable c = False \<and>
           (case default c of DefaultString d \<Rightarrow> startsWith d ''nextval'' | _ \<Rightarrow> False))
     in if isPrimary then JObj [(''readOnly'', JBool True)] else JObj [])"



subsection \<open>Regular expressions\<close>

text \<open>
  Strings are sequences of UTF-8 bytes. The two patterns of the synthesizer are anchored
  at the start and are built from literal text and the greedy \<^verbatim>\<open>.*\<close>, once as the
  capture group. \<^verbatim>\<open>.\<close> matches everything but the line terminators U+000A, U+000D,
  U+2028 and U+2029.
\<close>

datatype rx_item = Lit string | DotStar | Group

definition line_terminator_at :: "string \<Rightarrow> bool" where
  "line_terminator_at s =
     (take 1 s = [CHR 0x0A] \<or> take 1 s = [CHR 0x0D] \<or>
      take 3 s = [CHR 0xE2, CHR 0x80, CHR 0xA8] \<or> take 3 s = [CHR 0xE2, CHR 0x80, CHR 0xA9])"

text \<open>The number of bytes that \<^verbatim>\<open>.*\<close> can take at most.\<close>

fun dot_run :: "string \<Rightarrow> nat" where
  "dot_run [] = 0"
| "dot_run (c # cs) = (if line_terminator_at (c # cs) then 0 else Suc (dot_run cs))"

fun first_match :: "(nat \<Rightarrow> 'a option) \<Rightarrow> nat list \<Rightarrow> 'a option" where
  "first_match f [] = None"
| "first_match f (n # ns) = (case f n of Some r \<Rightarrow> Some r | None \<Rightarrow> first_match f ns)"

text \<open>
  Backtracking as the regular expression engine does it: a greedy \<^verbatim>\<open>.*\<close> takes the
  longest run first and gives bytes back one at a time until the rest of the pattern
  matches. The result is the list of captured groups.
\<close>

fun rx_match :: "rx_item list \<Rightarrow> string \<Rightarrow> string list option" where
  "rx_match [] s = Some []"
| "rx_match (Lit l # r) s =
     (if take (length l) s = l then rx_match r (drop (length l) s) else None)"
| "rx_match (DotStar # r) s =
     first_match (\<lambda>n. rx_match r (drop n s)) (rev [0..<Suc (dot_run s)])"
| "rx_match (Group # r) s =
     first_match (\<lambda>n. map_option ((#) (take n s)) (rx_match r (drop n s)))
       (rev [0..<Suc (dot_run s)])"

text \<open>\<^verbatim>\<open>/^\(.* = ANY \(ARRAY\[(.*)\]\)\)/\<close>\<close>

definition ENUM_CHECK_REGEX :: "rx_item list" where
  "ENUM_CHECK_REGEX = [Lit ''('', DotStar, Lit '' = ANY (ARRAY['', Group, Lit '']))'']"

text \<open>\<^verbatim>\<open>/^'(.*)'::.*/\<close>\<close>

definition ENUM_EXTRACT_VALUE_REGEX :: "rx_item list" where
  "ENUM_EXTRACT_VALUE_REGEX = [Lit [CHR 0x27], Group, Lit ([CHR 0x27] @ ''::''), DotStar]"

text \<open>\<^verbatim>\<open>String.prototype.split\<close> with a separator that is not empty.\<close>

fun split_acc :: "string \<Rightarrow> string \<Rightarrow> string \<Rightarrow> string list" where
  "split_acc sep acc [] = [acc]"
| "split_acc sep acc (c # cs) =
     (if sep \<noteq> [] \<and> take (length sep) (c # cs) = sep
      then acc # split_acc sep [] (drop (length sep - 1) cs)
      else split_acc sep (acc @ [c]) cs)"

definition split :: "string \<Rightarrow> string \<Rightarrow> string list" where
  "split s sep = split_acc sep [] s"

subsection \<open>Enumerations, properties and the schema document\<close>

text \<open>
  The values that one constraint contributes. A constraint that is \<^verbatim>\<open>null\<close> or empty,
  that does not match, or whose group is empty contributes the empty list; a literal
  that does not match, or whose text is empty, is dropped by \<^verbatim>\<open>filter(identity)\<close>.
\<close>

definition extract_value :: "string \<Rightarrow> string option" where
  "extract_value value =
    (case rx_match ENUM_EXTRACT_VALUE_REGEX value of
       Some (m # _) \<Rightarrow> Some m
     | _ \<Rightarrow> None)"

definition truthy_strings :: "string option list \<Rightarrow> string list" where
  "truthy_strings xs = concat (map (\<lambda>x. case x of Some (c # cs) \<Rightarrow> [c # cs] | _ \<Rightarrow> []) xs)"

definition enum_values :: "string option \<Rightarrow> string list" where
  "enum_values constraint =
    (case constraint of
       None \<Rightarrow> []
     | Some [] \<Rightarrow> []
     | Some (c # cs) \<Rightarrow>
        (case rx_match ENUM_CHECK_REGEX (c # cs) of
           Some ((r # rs) # _) \<Rightarrow> truthy_strings (map extract_value (split (r # rs) '', ''))
         | _ \<Rightarrow> []))"

text \<open>
  Every list is truthy, so the second \<^verbatim>\<open>filter(identity)\<close> keeps each constraint's
  list, also an empty one.
\<close>

definition isEnumConstraint :: "column \<Rightarrow> jval" where
  "isEnumConstraint c =
    (case constraints c of
       None \<Rightarrow> JObj []
     | Some cs \<Rightarrow>
        if cs = [] then JObj []
        else let values = filter (\<lambda>v. True) (map enum_values cs)
             in if values = [] then JObj []
                else JObj [(''enum'', JArr (map JStr (concat values)))])"

definition property :: "column \<Rightarrow> options \<Rightarrow> jval" where
  "property c opts =
     JObj [(name c, JObj (mergeAll [columnType c opts, isReadOnly c, isEnumConstraint c]))]"


record table =
  table_schema :: string
  table_name :: string
  identifyingProperties :: "string list"




subsection \<open>The constraint shape that the enumeration pattern is written for\<close>

text \<open>\<^verbatim>\<open>Array.prototype.join\<close>.\<close>

fun join :: "string list \<Rightarrow> string \<Rightarrow> string" where
  "join [] sep = []"
| "join [x] sep = x"
| "join (x # y # ys) sep = x @ sep @ join (y # ys) sep"

text \<open>
  The text that the catalogue reports for a check \<^verbatim>\<open>col IN (...)\<close>: the column, and the
  quoted literals with their type casts, separated by a comma and a space.
\<close>

definition literal :: "string \<times> string \<Rightarrow> string" where
  "literal l = [CHR 0x27] @ fst l @ [CHR 0x27] @ ''::'' @ snd l"

definition check_source :: "string \<Rightarrow> (string \<times> string) list \<Rightarrow> string" where
  "check_source col lits =
     ''('' @ col @ '' = ANY (ARRAY['' @ join (map literal lits) '', '' @ '']))''"

text \<open>Characters with no role in the two patterns.\<close>

definition plain :: "char \<Rightarrow> bool" where
  "plain c = (c \<notin> set ''[],'' \<and> c \<noteq> CHR 0x27 \<and> c \<noteq> CHR 0x0A \<and> c \<noteq> CHR 0x0D \<and>
              c \<noteq> CHR 0xE2)"

definition no_terminator :: "string \<Rightarrow> bool" where
  "no_terminator s = (\<forall>c\<in>set s. c \<noteq> CHR 0x0A \<and> c \<noteq> CHR 0x0D \<and> c \<noteq> CHR 0xE2)"


subsection \<open>Columns of the repository's schema tests\<close>


definition test_forename :: column where
  "test_forename = \<lparr>name = ''forename'', type = ''character varying'', nullable = False,
     default = DefaultNull, isprimarykey = True, constraints = None\<rparr>"

definition test_age :: column where
  "test_age = \<lparr>name = ''age'', type = ''smallint'', nullable = False,
     default = DefaultNumber 30, isprimarykey = False,
     constraints = Some [Some ''(age > 16)'']\<rparr>"

definition test_rating :: column where
  "test_rating = \<lparr>name = ''rating'', type = ''character'', nullable = True,
     default = DefaultNull, isprimarykey = False,
     constraints =
       Some [Some ''(rating = ANY (ARRAY['good'::text, 'average'::text, 'bad'::text]))'']\<rparr>"

text \<open>The column of the specification's scenario, whose literals have no space between them.\<close>

definition spec_rating :: column where
  "spec_rating = \<lparr>name = ''rating'', type = ''character'', nullable = True,
     default = DefaultNull, isprimarykey = False,
     constraints =
       Some [Some ''(rating = ANY (ARRAY['good'::text,'average'::text,'bad'::text]))'']\<rparr>"


section \<open>The query builder library\<close>

text \<open>
  The compiler drives the squel query builder (version 5, PostgreSQL flavour). Its
  builders are modelled by the state that each call leaves behind, and \<^verbatim>\<open>toParam\<close>
  by the text and the values that the blocks of a builder produce from that state.
\<close>

subsection \<open>Strings and numbers\<close>

fun show_nat :: "nat \<Rightarrow> string" where
  "show_nat n = (if n < 10 then [''0123456789'' ! n]
                 else show_nat (n div 10) @ [''0123456789'' ! (n mod 10)])"

declare show_nat.simps [simp del]

text \<open>\<^verbatim>\<open>_pad(str, pad)\<close>, and the texts that the blocks build with it.\<close>

definition pad :: "string \<Rightarrow> string \<Rightarrow> string" where
  "pad str p = (if str = [] then str else str @ p)"

definition pad_join :: "string list \<Rightarrow> string \<Rightarrow> string" where
  "pad_join xs sep = foldl (\<lambda>total x. pad total sep @ x) [] xs"

text \<open>
  \<^verbatim>\<open>_applyNestingFormatting\<close>: a text that is not empty gets brackets unless its first
  bracket already closes at its last character.
\<close>

fun brackets_span :: "string \<Rightarrow> nat \<Rightarrow> bool" where
  "brackets_span [] opn = True"
| "brackets_span (c # cs) opn =
     (if c = CHR ''('' then brackets_span cs (Suc opn)
      else if c = CHR '')'' then (if opn \<le> 1 then False else brackets_span cs (opn - 1))
      else brackets_span cs opn)"

definition alreadyHasBrackets :: "string \<Rightarrow> bool" where
  "alreadyHasBrackets str =
     (str \<noteq> [] \<and> hd str = CHR ''('' \<and> last str = CHR '')'' \<and> brackets_span (butlast (tl str)) 1)"

definition applyNestingFormatting :: "string \<Rightarrow> bool \<Rightarrow> string" where
  "applyNestingFormatting str nesting =
     (if str \<noteq> [] \<and> nesting
      then (if alreadyHasBrackets str then str else ''('' @ str @ '')'')
      else str)"

text \<open>
  The text of the select builder that the compiler puts into query data, as a nested
  query: the field (or \<^verbatim>\<open>*\<close> when its name is empty) and the table.
\<close>

definition nested_select :: "string \<Rightarrow> string \<Rightarrow> string" where
  "nested_select alias field =
     applyNestingFormatting
       (join (filter (\<lambda>t. t \<noteq> []) [''SELECT'', if field = [] then ''*'' else field, ''FROM '' @ alias]) '' '')
       True"

text \<open>
  One placeholder of \<^verbatim>\<open>_buildString\<close> in parameter mode: a builder is inlined, an array
  gets one placeholder for each element, any other value gets one placeholder.
\<close>

fun format_param :: "jval \<Rightarrow> string \<times> jval list" where
  "format_param (JSelect alias field) = (nested_select alias field, [])"
| "format_param (JArr xs) = (''('' @ join (map (\<lambda>x. ''?'') xs) '', '' @ '')'', xs)"
| "format_param v = (''?'', [v])"

text \<open>\<^verbatim>\<open>_buildString\<close>: a placeholder without a value left takes \<^verbatim>\<open>undefined\<close>.\<close>

fun buildString :: "string \<Rightarrow> jval list \<Rightarrow> string \<times> jval list" where
  "buildString [] vs = ([], [])"
| "buildString (c # cs) vs =
     (if c = CHR ''?''
      then (let (t, out) = format_param (case vs of [] \<Rightarrow> JUndefined | v # _ \<Rightarrow> v);
                (t', out') = buildString cs (tl vs)
            in (t @ t', out @ out'))
      else (let (t', out') = buildString cs vs in (c # t', out')))"

text \<open>The numbered parameters of the PostgreSQL flavour: every placeholder of the text, in order.\<close>

fun number_params :: "nat \<Rightarrow> string \<Rightarrow> string" where
  "number_params i [] = []"
| "number_params i (c # cs) =
     (if c = CHR ''?'' then ''$'' @ show_nat i @ number_params (Suc i) cs
      else c # number_params i cs)"

subsection \<open>Expressions\<close>

datatype node_type = NodeAND | NodeOR

datatype expression = Expression "node list"
  and node = StrNode node_type string "jval list" | ExprNode node_type expression

definition type_text :: "node_type \<Rightarrow> string" where
  "type_text t = (case t of NodeAND \<Rightarrow> ''AND'' | NodeOR \<Rightarrow> ''OR'')"

text \<open>The texts of the nodes with the type of each node but the first before it.\<close>

fun node_texts :: "(node_type \<times> string \<times> jval list) list \<Rightarrow> string list" where
  "node_texts [] = []"
| "node_texts ((t, text, vs) # rs) = text # concat (map (\<lambda>(t, text, vs). [type_text t, text]) rs)"

fun expression_param :: "bool \<Rightarrow> expression \<Rightarrow> string \<times> jval list"
  and node_param :: "node \<Rightarrow> node_type \<times> string \<times> jval list" where
  "expression_param nested (Expression nodes) =
     (let rs = map node_param nodes
      in (applyNestingFormatting (join (node_texts rs) '' '') nested,
          concat (map (\<lambda>(t, text, vs). vs) rs)))"
| "node_param (StrNode t expr para) = (t, buildString expr para)"
| "node_param (ExprNode t expr) = (t, expression_param True expr)"

text \<open>\<^verbatim>\<open>expr().and(...)\<close> and \<^verbatim>\<open>expr().or(...)\<close> add a node.\<close>

fun expr_add :: "expression \<Rightarrow> node \<Rightarrow> expression" where
  "expr_add (Expression nodes) n = Expression (nodes @ [n])"

section \<open>The query compiler\<close>

text \<open>
  The query shapes, the helpers that add one clause each to a builder, and the five
  builders. Where a helper mutates its query, the function gives the query back.
\<close>

subsection \<open>Sources and conditions\<close>

record relationship =
  relationName :: string
  localProperty :: string
  foreignProperty :: string

record source =
  source_name :: string
  source_identifyingProperties :: "string list"
  has :: "relationship list"
  belongsTo :: "relationship list"

record raw =
  fragment :: string
  raw_values :: "jval list option"

datatype condition =
    ConditionAnd "condition list"
  | ConditionOr "condition list"
  | Raw raw
  | ConditionTerm string "string option" jval

text \<open>
  \<^verbatim>\<open>addQueryCondition\<close>. An \<^verbatim>\<open>$and\<close> or \<^verbatim>\<open>$or\<close> list is truthy also when it is empty; a
  term without operator takes \<^verbatim>\<open>=\<close>.
\<close>

fun addQueryCondition :: "source \<Rightarrow> condition \<Rightarrow> expression" where
  "addQueryCondition src (ConditionAnd and_list) =
     foldl (\<lambda>result andCondition. expr_add result (ExprNode NodeAND (addQueryCondition src andCondition)))
       (Expression []) and_list"
| "addQueryCondition src (ConditionOr or_list) =
     foldl (\<lambda>result orCondition. expr_add result (ExprNode NodeOR (addQueryCondition src orCondition)))
       (Expression []) or_list"
| "addQueryCondition src (Raw r) =
     expr_add (Expression [])
       (StrNode NodeAND (fragment r) (case raw_values r of None \<Rightarrow> [] | Some vs \<Rightarrow> vs))"
| "addQueryCondition src (ConditionTerm field operator value) =
     expr_add (Expression [])
       (StrNode NodeAND
          (source_name src @ ''.'' @ field @ '' '' @
             (case operator of None \<Rightarrow> ''='' | Some op \<Rightarrow> op) @ '' ?'')
          [value])"

subsection \<open>Numbers\<close>

text \<open>
  A page size, a page number and an offset are JavaScript numbers: IEEE doubles. The
  model keeps the integer-valued ones as \<open>int\<close> and rounds each result of an operation
  to 53 significant bits, to the nearest and on a tie to the even one, as the machine
  does. (Results of magnitude \<open>2 ^ 1024\<close> and more, which become infinite, are outside
  the model.)
\<close>

function bit_length :: "int \<Rightarrow> nat" where
  "bit_length x = (if x \<le> 0 then 0 else Suc (bit_length (x div 2)))"
  by pat_completeness auto
termination
  by (relation "measure nat") auto

declare bit_length.simps [simp del]

definition round_double :: "int \<Rightarrow> int" where
  "round_double x =
    (if \<bar>x\<bar> < 2 ^ 53 then x
     else let e = bit_length \<bar>x\<bar> - 53;
              q = \<bar>x\<bar> div 2 ^ e;
              r = \<bar>x\<bar> mod 2 ^ e;
              half = 2 ^ (e - 1);
              q' = (if r > half \<or> (r = half \<and> odd q) then q + 1 else q)
          in sgn x * q' * 2 ^ e)"

definition js_sub :: "int \<Rightarrow> int \<Rightarrow> int" where
  "js_sub a b = round_double (a - b)"

definition js_mul :: "int \<Rightarrow> int \<Rightarrow> int" where
  "js_mul a b = round_double (a * b)"

subsection \<open>The select builder\<close>

record select_builder =
  sel_fields :: "string list"
  sel_from :: "string list"
  sel_joins :: "(string \<times> string \<times> string) list"
  sel_where :: "expression list"
  sel_order :: "(string \<times> bool) list"
  sel_limit :: "int option"
  sel_offset :: "int option"

text \<open>\<^verbatim>\<open>squel.select().from(table)\<close>\<close>

definition select_from :: "string \<Rightarrow> select_builder" where
  "select_from table =
     \<lparr>sel_fields = [], sel_from = [table], sel_joins = [], sel_where = [], sel_order = [],
      sel_limit = None, sel_offset = None\<rparr>"

text \<open>\<^verbatim>\<open>field(name)\<close> does not add a field that the builder already has.\<close>

definition field :: "select_builder \<Rightarrow> string \<Rightarrow> select_builder" where
  "field sql f = (if f \<in> set (sel_fields sql) then sql else sql\<lparr>sel_fields := sel_fields sql @ [f]\<rparr>)"

definition left_join :: "select_builder \<Rightarrow> string \<Rightarrow> string \<Rightarrow> string \<Rightarrow> select_builder" where
  "left_join sql table alias condition = sql\<lparr>sel_joins := sel_joins sql @ [(table, alias, condition)]\<rparr>"

text \<open>\<^verbatim>\<open>order(field, asc)\<close> with a boolean direction.\<close>

definition order :: "select_builder \<Rightarrow> string \<Rightarrow> bool \<Rightarrow> select_builder" where
  "order sql f asc = sql\<lparr>sel_order := sel_order sql @ [(f, asc)]\<rparr>"

text \<open>
  \<^verbatim>\<open>_sanitizeLimitOffset\<close>: the value goes through \<^verbatim>\<open>parseInt\<close>, which gives an integer
  that prints in plain decimal notation (below \<open>10 ^ 21\<close>) back unchanged, and a negative
  value is refused.
\<close>

definition sanitizeLimitOffset :: "int \<Rightarrow> error + int" where
  "sanitizeLimitOffset v = (if 0 > v then Inl (SquelError ''limit/offset must be >= 0'') else Inr v)"

definition limit :: "select_builder \<Rightarrow> int \<Rightarrow> error + select_builder" where
  "limit sql v = (case sanitizeLimitOffset v of Inl e \<Rightarrow> Inl e | Inr n \<Rightarrow> Inr (sql\<lparr>sel_limit := Some n\<rparr>))"

definition offset :: "select_builder \<Rightarrow> int \<Rightarrow> error + select_builder" where
  "offset sql v = (case sanitizeLimitOffset v of Inl e \<Rightarrow> Inl e | Inr n \<Rightarrow> Inr (sql\<lparr>sel_offset := Some n\<rparr>))"

text \<open>The blocks of a select builder, in the order of the PostgreSQL flavour.\<close>

definition fields_param :: "select_builder \<Rightarrow> string" where
  "fields_param sql =
     (let total = pad_join (sel_fields sql) '', ''
      in if total \<noteq> [] then total else if sel_from sql \<noteq> [] then ''*'' else [])"

definition from_param :: "select_builder \<Rightarrow> string" where
  "from_param sql = (if sel_from sql = [] then [] else ''FROM '' @ pad_join (sel_from sql) '', '')"

definition join_param :: "string \<times> string \<times> string \<Rightarrow> string \<times> jval list" where
  "join_param j =
     (case j of (table, alias, condition) \<Rightarrow>
        (''LEFT JOIN '' @ table @
           (if alias \<noteq> [] then '' AS '' @ alias else []) @
           (if condition \<noteq> []
            then '' ON '' @ applyNestingFormatting (fst (buildString condition [])) True
            else []),
         if condition \<noteq> [] then snd (buildString condition []) else []))"

definition joins_param :: "select_builder \<Rightarrow> string \<times> jval list" where
  "joins_param sql =
     (pad_join (map (fst \<circ> join_param) (sel_joins sql)) '' '',
      concat (map (snd \<circ> join_param) (sel_joins sql)))"

text \<open>The WHERE block: a condition whose text is empty is left out, its values are not.\<close>

definition where_param :: "expression list \<Rightarrow> string \<times> jval list" where
  "where_param conds =
     (let rets = map (expression_param False) conds;
          texts = filter (\<lambda>t. t \<noteq> []) (map fst rets)
      in (if texts \<noteq> [] then ''WHERE ('' @ join texts '') AND ('' @ '')'' else [],
          concat (map snd rets)))"

definition order_param :: "select_builder \<Rightarrow> string \<times> jval list" where
  "order_param sql =
     (let rets = map (\<lambda>(f, asc). (buildString f [], asc)) (sel_order sql);
          total = pad_join (map (\<lambda>(ret, asc). fst ret @ '' '' @ (if asc then ''ASC'' else ''DESC'')) rets) '', ''
      in (if total \<noteq> [] then ''ORDER BY '' @ total else [],
          concat (map (\<lambda>(ret, asc). snd ret) rets)))"

definition verb_value_param :: "string \<Rightarrow> int option \<Rightarrow> string \<times> jval list" where
  "verb_value_param verb v =
     (case v of None \<Rightarrow> ([], []) | Some n \<Rightarrow> buildString (verb @ '' ?'') [JNum n])"

definition select_param :: "select_builder \<Rightarrow> string \<times> jval list" where
  "select_param sql =
     (let blocks =
            [(''SELECT'', []), (fields_param sql, []), (from_param sql, []), joins_param sql,
             where_param (sel_where sql), order_param sql,
             verb_value_param ''LIMIT'' (sel_limit sql), verb_value_param ''OFFSET'' (sel_offset sql)]
      in (join (filter (\<lambda>t. t \<noteq> []) (map fst blocks)) '' '', concat (map snd blocks)))"

text \<open>\<^verbatim>\<open>toParam()\<close> of a select builder.\<close>

definition select_toParam :: "select_builder \<Rightarrow> string \<times> jval list" where
  "select_toParam sql = (case select_param sql of (text, vs) \<Rightarrow> (number_params 1 text, vs))"

subsection \<open>Query shapes\<close>

datatype field = FieldName string | FieldRaw raw

record join_spec =
  join_source :: string
  join_path :: "string list"
  join_from :: string
  join_to :: string

record order_spec =
  order_field :: string
  order_direction :: string

record page_spec =
  page_size :: int
  page_number :: int

text \<open>
  The five query shapes in one record: a Create or Update query has \<open>returning\<close>,
  \<open>joins\<close> and \<open>data\<close>, a Read query \<open>field_list\<close> (its \<^verbatim>\<open>fields\<close>), \<open>conditions\<close>,
  \<open>joins\<close>, \<open>order_by\<close> (its \<^verbatim>\<open>order\<close>) and \<open>page\<close>, an Update or Delete query
  \<open>conditions\<close>. The \<^verbatim>\<open>schema\<close> of a query is not read by any builder and is left out. An optional property that is
  absent is \<open>None\<close>; each builder reads the properties of its shape only.
\<close>

record query =
  source :: source
  returning :: "string list"
  joins :: "join_spec list option"
  data :: jval
  field_list :: "field list option"
  conditions :: "condition list option"
  order_by :: "order_spec list option"
  page :: "page_spec option"

definition JOIN_MARKER :: string where
  "JOIN_MARKER = [CHR 0xCE, CHR 0x94]"

subsection \<open>Helpers of the Read and Count queries\<close>

definition addQueryFields :: "select_builder \<Rightarrow> query \<Rightarrow> select_builder" where
  "addQueryFields sql q =
     (case field_list q of
        None \<Rightarrow> field sql (source_name (source q) @ ''.*'')
      | Some fs \<Rightarrow>
          foldl (\<lambda>sql f. field sql (case f of FieldRaw r \<Rightarrow> fragment r
                                       | FieldName n \<Rightarrow> source_name (source q) @ ''.'' @ n))
            sql fs)"

text \<open>\<^verbatim>\<open>path.slice(0, -1)\<close> is \<open>butlast\<close>.\<close>

definition addQueryJoins :: "select_builder \<Rightarrow> query \<Rightarrow> bool \<Rightarrow> select_builder" where
  "addQueryJoins sql q counting =
     (case joins q of
        None \<Rightarrow> sql
      | Some js \<Rightarrow>
          foldl (\<lambda>sql j.
              let alias = join (join_path j) JOIN_MARKER;
                  self = join (butlast (join_path j)) JOIN_MARKER;
                  sql' = left_join sql (join_source j) alias
                           (alias @ ''.'' @ join_to j @ '' = '' @ self @ ''.'' @ join_from j)
              in if counting then sql'
                 else field sql' (''row_to_json('' @ alias @ ''.*) AS '' @ alias))
            sql js)"

text \<open>
  \<^verbatim>\<open>addQueryConditions\<close> serves the select, update and delete builders; the model applies
  it to the state of the builder's WHERE block.
\<close>

definition addQueryConditions :: "expression list \<Rightarrow> query \<Rightarrow> expression list" where
  "addQueryConditions wheres q =
     (case conditions q of
        None \<Rightarrow> wheres
      | Some cs \<Rightarrow> foldl (\<lambda>wheres condition. wheres @ [addQueryCondition (source q) condition]) wheres cs)"

text \<open>Only the letters A, S and C have the lower-case forms that the comparison asks for.\<close>

definition toLowerCase_is_asc :: "string \<Rightarrow> bool" where
  "toLowerCase_is_asc d =
     (length d = 3 \<and> d ! 0 \<in> {CHR ''a'', CHR ''A''} \<and> d ! 1 \<in> {CHR ''s'', CHR ''S''} \<and>
      d ! 2 \<in> {CHR ''c'', CHR ''C''})"

definition addQueryOrder :: "select_builder \<Rightarrow> query \<Rightarrow> select_builder" where
  "addQueryOrder sql q =
     (case order_by q of
        None \<Rightarrow> sql
      | Some os \<Rightarrow> foldl (\<lambda>sql ord. order sql (order_field ord) (toLowerCase_is_asc (order_direction ord))) sql os)"

definition addQueryPagination :: "select_builder \<Rightarrow> query \<Rightarrow> error + select_builder" where
  "addQueryPagination sql q =
     (case page q of
        None \<Rightarrow> Inr sql
      | Some p \<Rightarrow>
         (case limit sql (page_size p) of
            Inl e \<Rightarrow> Inl e
          | Inr sql' \<Rightarrow> offset sql' (js_mul (page_size p) (js_sub (page_number p) 1))))"

subsection \<open>The Read and Count queries\<close>

definition readQuery :: "query \<Rightarrow> error + select_builder" where
  "readQuery q =
     (let result = select_from (source_name (source q));
          result = addQueryFields result q;
          result = addQueryJoins result q False;
          result = result\<lparr>sel_where := addQueryConditions (sel_where result) q\<rparr>;
          result = addQueryOrder result q;
          result = result\<lparr>sel_where := addQueryConditions (sel_where result) q\<rparr>
      in addQueryPagination result q)"

definition countQuery :: "query \<Rightarrow> select_builder" where
  "countQuery q =
     (let result = field (select_from (source_name (source q))) ''COUNT(*)'';
          result = addQueryJoins result q True
      in result\<lparr>sel_where := addQueryConditions (sel_where result) q\<rparr>)"

subsection \<open>Property access and Ramda's functions on query data\<close>

text \<open>The elements of an array or the characters of a string under their index keys.\<close>

definition indexed :: "jval list \<Rightarrow> obj" where
  "indexed xs = map (\<lambda>i. (show_nat i, xs ! i)) [0..<length xs]"

text \<open>
  The own enumerable properties of a value, as \<^verbatim>\<open>for (p in obj)\<close> visits them. The two
  properties of a builder object are kept without their content.
\<close>

fun own_properties :: "jval \<Rightarrow> obj" where
  "own_properties (JObj kvs) = kvs"
| "own_properties (JArr xs) = indexed xs"
| "own_properties (JStr s) = indexed (map (\<lambda>c. JStr [c]) s)"
| "own_properties (JSelect alias f) = [(''options'', JObj []), (''blocks'', JArr [])]"
| "own_properties _ = []"

text \<open>
  \<^verbatim>\<open>val[key]\<close> on a value that is neither \<^verbatim>\<open>null\<close> nor \<^verbatim>\<open>undefined\<close>. Properties
  inherited from a prototype, all of them functions, are not in the model.
\<close>

definition js_get :: "jval \<Rightarrow> string \<Rightarrow> jval" where
  "js_get v key =
     (case map_of (own_properties v) key of
        Some x \<Rightarrow> x
      | None \<Rightarrow>
         (case v of
            JArr xs \<Rightarrow> if key = ''length'' then JNum (int (length xs)) else JUndefined
          | JStr s \<Rightarrow> if key = ''length'' then JNum (int (length s)) else JUndefined
          | _ \<Rightarrow> JUndefined))"

fun path :: "string list \<Rightarrow> jval \<Rightarrow> jval" where
  "path [] val = val"
| "path (p # ps) val =
     (if val = JNull \<or> val = JUndefined then JUndefined else path ps (js_get val p))"

definition assoc :: "string \<Rightarrow> jval \<Rightarrow> jval \<Rightarrow> jval" where
  "assoc prop val obj = JObj (assign prop val (own_properties obj))"

text \<open>\<^verbatim>\<open>_has(idx, obj)\<close>: an own property, enumerable or not.\<close>

definition has_own :: "string \<Rightarrow> jval \<Rightarrow> bool" where
  "has_own key obj =
     (key \<in> fst ` set (own_properties obj) \<or>
      (key = ''length'' \<and> (case obj of JArr xs \<Rightarrow> True | JStr s \<Rightarrow> True | _ \<Rightarrow> False)))"

text \<open>The path segments are strings, so \<^verbatim>\<open>assocPath\<close> builds objects, never arrays.\<close>

fun assocPath :: "string list \<Rightarrow> jval \<Rightarrow> jval \<Rightarrow> jval" where
  "assocPath [] val obj = val"
| "assocPath [idx] val obj = assoc idx val obj"
| "assocPath (idx # idx' # rest) val obj =
     (let nextObj = (if obj \<noteq> JNull \<and> obj \<noteq> JUndefined \<and> has_own idx obj
                     then js_get obj idx else JObj [])
      in assoc idx (assocPath (idx' # rest) val nextObj) obj)"

text \<open>\<^verbatim>\<open>typeof v === 'object'\<close>\<close>

fun typeof_object :: "jval \<Rightarrow> bool" where
  "typeof_object JNull = True"
| "typeof_object (JArr xs) = True"
| "typeof_object (JObj kvs) = True"
| "typeof_object (JSelect alias f) = True"
| "typeof_object _ = False"

subsection \<open>Field values of the insert and update builders\<close>

text \<open>
  \<^verbatim>\<open>_sanitizeValue\<close> accepts \<^verbatim>\<open>null\<close>, strings, numbers, booleans, builders and the
  registered type, which is \<^verbatim>\<open>Array\<close>; a value that is \<^verbatim>\<open>undefined\<close> is not looked at.
\<close>

fun sanitizeValue :: "jval \<Rightarrow> error + jval" where
  "sanitizeValue (JObj kvs) =
     Inl (SquelError ''field value must be a string, number, boolean, null or one of the registered custom value types'')"
| "sanitizeValue v = Inr v"

text \<open>\<^verbatim>\<open>setFields\<close> on the fields and the row of values that a builder has so far.\<close>

fun setFields :: "obj \<Rightarrow> obj \<Rightarrow> error + obj" where
  "setFields block [] = Inr block"
| "setFields block ((f, v) # kvs) =
     (case sanitizeValue v of
        Inl e \<Rightarrow> Inl e
      | Inr v' \<Rightarrow> setFields (assign f v' block) kvs)"

text \<open>
  \<^verbatim>\<open>addQueryValues\<close>. Ramda's \<^verbatim>\<open>map\<close> throws on \<^verbatim>\<open>null\<close>, maps an object key by key
  and anything else as an array: the elements of an array, the characters of a string,
  and one \<^verbatim>\<open>undefined\<close> for a number or a boolean. The keys of a builder object are
  those of a plain object, whose first value the builder refuses.
\<close>

definition wrap_array :: "jval \<Rightarrow> jval" where
  "wrap_array value = (case value of JArr xs \<Rightarrow> JArr [value] | _ \<Rightarrow> value)"

fun addQueryValues :: "obj \<Rightarrow> jval \<Rightarrow> error + obj" where
  "addQueryValues block JUndefined = setFields block []"
| "addQueryValues block JNull = Inl (TypeError ''Cannot read property 'fantasy-land/map' of null'')"
| "addQueryValues block (JObj kvs) = setFields block (map (\<lambda>(k, v). (k, wrap_array v)) kvs)"
| "addQueryValues block (JArr xs) = setFields block (indexed (map wrap_array xs))"
| "addQueryValues block (JStr s) = setFields block (indexed (map (\<lambda>c. JStr [c]) s))"
| "addQueryValues block (JSelect alias f) = setFields block [(''options'', JObj [])]"
| "addQueryValues block v = setFields block (indexed [JUndefined])"

subsection \<open>The insert, update and delete builders\<close>

record insert_builder =
  ins_into :: string
  ins_fields :: obj
  ins_returning :: "string list"

record insert_query = insert_builder +
  ins_with :: "(string \<times> insert_builder) list"

record update_builder =
  upd_with :: "(string \<times> insert_builder) list"
  upd_table :: string
  upd_fields :: obj
  upd_where :: "expression list"
  upd_returning :: "string list"

record delete_builder =
  del_from :: string
  del_where :: "expression list"

text \<open>\<^verbatim>\<open>squel.insert().into(table).returning(field)\<close>\<close>

definition insert_into_returning :: "string \<Rightarrow> string \<Rightarrow> insert_builder" where
  "insert_into_returning table f = \<lparr>ins_into = table, ins_fields = [], ins_returning = [f]\<rparr>"

text \<open>The blocks of an insert builder.\<close>

definition into_param :: "string \<Rightarrow> error + string" where
  "into_param table =
     (if table = [] then Inl (SquelError ''into() needs to be called'') else Inr (''INTO '' @ table))"

definition insert_values_param :: "obj \<Rightarrow> string \<times> jval list" where
  "insert_values_param block =
     (let fieldString = join (map fst block) '', '';
          rets = map (\<lambda>(f, v). buildString ''?'' [v]) block
      in (if fieldString \<noteq> []
          then ''('' @ fieldString @ '') VALUES ('' @ pad_join (map fst rets) '', '' @ '')''
          else [],
          concat (map snd rets)))"

definition returning_param :: "string list \<Rightarrow> string" where
  "returning_param fs =
     (let total = pad_join fs '', '' in if total \<noteq> [] then ''RETURNING '' @ total else [])"

definition blocks_text :: "string list \<Rightarrow> string" where
  "blocks_text texts = join (filter (\<lambda>t. t \<noteq> []) texts) '' ''"

definition insert_param :: "'a insert_builder_scheme \<Rightarrow> error + string \<times> jval list" where
  "insert_param sql =
     (case into_param (ins_into sql) of
        Inl e \<Rightarrow> Inl e
      | Inr into \<Rightarrow>
          (case insert_values_param (ins_fields sql) of
             (vtext, vs) \<Rightarrow>
               Inr (blocks_text [''INSERT'', into, vtext, returning_param (ins_returning sql)], vs)))"

text \<open>The WITH block: each table is a nested insert builder.\<close>

fun with_parts :: "(string \<times> insert_builder) list \<Rightarrow> error + string list \<times> jval list" where
  "with_parts [] = Inr ([], [])"
| "with_parts ((alias, table) # rest) =
     (case insert_param table of
        Inl e \<Rightarrow> Inl e
      | Inr (text, vs) \<Rightarrow>
          (case with_parts rest of
             Inl e \<Rightarrow> Inl e
           | Inr (parts, vs') \<Rightarrow>
               Inr ((alias @ '' AS '' @ applyNestingFormatting text True) # parts, vs @ vs')))"

definition with_param :: "(string \<times> insert_builder) list \<Rightarrow> error + string \<times> jval list" where
  "with_param tables =
     (case with_parts tables of
        Inl e \<Rightarrow> Inl e
      | Inr (parts, vs) \<Rightarrow> Inr (if parts \<noteq> [] then ''WITH '' @ join parts '', '' else [], vs))"

text \<open>\<^verbatim>\<open>toParam()\<close> of the insert builder of a Create query.\<close>

definition insert_toParam :: "insert_query \<Rightarrow> error + string \<times> jval list" where
  "insert_toParam sql =
     (case with_param (ins_with sql) of
        Inl e \<Rightarrow> Inl e
      | Inr (wtext, wvs) \<Rightarrow>
          (case insert_param sql of
             Inl e \<Rightarrow> Inl e
           | Inr (text, vs) \<Rightarrow> Inr (number_params 1 (blocks_text [wtext, text]), wvs @ vs)))"

subsection \<open>Sorting an array in place\<close>

text \<open>
  \<^verbatim>\<open>Array.prototype.sort\<close> with a comparison function. The language leaves the result
  open when the function is not a consistent comparison; the model is the insertion sort
  that the engines of the package's time (Node 8 to 10) run on an array of up to ten
  elements, which is also what the repository's test of the nested inserts expects: an
  element moves down past every element for which the comparison, called with that
  element first, gives a positive number.
\<close>

fun insert_down :: "('a \<Rightarrow> 'a \<Rightarrow> int) \<Rightarrow> 'a \<Rightarrow> 'a list \<Rightarrow> 'a list" where
  "insert_down comparefn element [] = [element]"
| "insert_down comparefn element (tmp # below) =
     (if comparefn tmp element > 0 then tmp # insert_down comparefn element below
      else element # tmp # below)"

text \<open>The sorted part is kept with its last element first.\<close>

definition array_sort :: "('a \<Rightarrow> 'a \<Rightarrow> int) \<Rightarrow> 'a list \<Rightarrow> 'a list" where
  "array_sort comparefn a = rev (foldl (\<lambda>sorted element. insert_down comparefn element sorted) [] a)"

subsection \<open>Nested inserts of the Create and Update queries\<close>

text \<open>
  One step of the loop of \<^verbatim>\<open>addQueryJoinCTEs\<close>, on the tables of the WITH block and the
  transformed data; \<open>q_data\<close> is the data of the query, which the loop reads only.
\<close>

definition join_cte ::
  "jval \<Rightarrow> (string \<times> insert_builder) list \<times> jval \<Rightarrow> join_spec \<Rightarrow>
   error + (string \<times> insert_builder) list \<times> jval" where
  "join_cte q_data state j =
     (case state of (withs, transformedData) \<Rightarrow>
        let nestedData = path (join_path j) q_data
        in if \<not> typeof_object nestedData then Inr (withs, transformedData)
           else
             let alias = join (join_path j) JOIN_MARKER;
                 nestedInsert = insert_into_returning (join_source j) (join_to j)
             in case addQueryValues (ins_fields nestedInsert) nestedData of
                  Inl e \<Rightarrow> Inl e
                | Inr block \<Rightarrow>
                    Inr (withs @ [(alias, nestedInsert\<lparr>ins_fields := block\<rparr>)],
                         assocPath (join_path j) (JSelect alias (join_to j)) transformedData))"

fun forEach_join ::
  "jval \<Rightarrow> (string \<times> insert_builder) list \<times> jval \<Rightarrow> join_spec list \<Rightarrow>
   error + (string \<times> insert_builder) list \<times> jval" where
  "forEach_join q_data state [] = Inr state"
| "forEach_join q_data state (j # js) =
     (case join_cte q_data state j of
        Inl e \<Rightarrow> Inl e
      | Inr state' \<Rightarrow> forEach_join q_data state' js)"

text \<open>
  \<^verbatim>\<open>addQueryJoinCTEs\<close> on the tables of the WITH block of the builder. The sort works in
  place, so the query comes back with its joins in the order that the sort left; this
  happens before the loop, and so also when the loop throws.
\<close>

definition addQueryJoinCTEs ::
  "(string \<times> insert_builder) list \<Rightarrow> query \<Rightarrow>
   query \<times> (error + (string \<times> insert_builder) list \<times> jval)" where
  "addQueryJoinCTEs withs q =
     (case joins q of
        None \<Rightarrow> (q, Inr (withs, data q))
      | Some js \<Rightarrow>
          let transformedData = data q;
              sorted = array_sort (\<lambda>join other. int (length (join_path join))) js
          in (q\<lparr>joins := Some sorted\<rparr>, forEach_join (data q) (withs, transformedData) sorted))"

subsection \<open>The Create, Update and Delete queries\<close>

definition createQuery :: "query \<Rightarrow> query \<times> (error + insert_query)" where
  "createQuery q =
     (let result = \<lparr>ins_into = source_name (source q), ins_fields = [],
                     ins_returning = [join (returning q) '',''], ins_with = []\<rparr>
      in case addQueryJoinCTEs (ins_with result) q of
           (q', Inl e) \<Rightarrow> (q', Inl e)
         | (q', Inr (withs, d)) \<Rightarrow>
             (case addQueryValues (ins_fields result) d of
                Inl e \<Rightarrow> (q', Inl e)
              | Inr block \<Rightarrow> (q', Inr (result\<lparr>ins_with := withs, ins_fields := block\<rparr>))))"

definition updateQuery :: "query \<Rightarrow> query \<times> (error + update_builder)" where
  "updateQuery q =
     (let result = \<lparr>upd_with = [], upd_table = source_name (source q), upd_fields = [],
                     upd_where = [], upd_returning = [join (returning q) '','']\<rparr>
      in case addQueryJoinCTEs (upd_with result) q of
           (q', Inl e) \<Rightarrow> (q', Inl e)
         | (q', Inr (withs, d)) \<Rightarrow>
             (case addQueryValues (upd_fields result) d of
                Inl e \<Rightarrow> (q', Inl e)
              | Inr block \<Rightarrow>
                  (q', Inr (result\<lparr>upd_with := withs, upd_fields := block,
                                   upd_where := addQueryConditions (upd_where result) q'\<rparr>))))"

definition deleteQuery :: "query \<Rightarrow> delete_builder" where
  "deleteQuery q =
     (let result = \<lparr>del_from = source_name (source q), del_where = []\<rparr>
      in result\<lparr>del_where := addQueryConditions (del_where result) q\<rparr>)"

text \<open>Compiling a Create query: the builder, then \<^verbatim>\<open>toParam()\<close>.\<close>

definition compileCreate :: "query \<Rightarrow> query \<times> (error + string \<times> jval list)" where
  "compileCreate q =
     (case createQuery q of
        (q', Inl e) \<Rightarrow> (q', Inl e)
      | (q', Inr sql) \<Rightarrow> (q', insert_toParam sql))"

subsection \<open>Reading a compiled condition\<close>

text \<open>The text that a condition compiles to, before the placeholders are numbered.\<close>

definition condition_text :: "source \<Rightarrow> condition \<Rightarrow> string" where
  "condition_text src c = fst (expression_param False (addQueryCondition src c))"

text \<open>
  Reading the brackets of a text from left to right: the number of brackets open after
  the text, from \<open>d\<close> open before it; there is none when a closing bracket finds no open one.
\<close>

fun scan :: "string \<Rightarrow> nat \<Rightarrow> nat option" where
  "scan [] d = Some d"
| "scan (c # cs) d =
     (if c = CHR ''('' then scan cs (Suc d)
      else if c = CHR '')'' then (if d = 0 then None else scan cs (d - 1))
      else scan cs d)"

text \<open>A text whose brackets match: every closing bracket closes an open one, and none stays open.\<close>

definition well_bracketed :: "string \<Rightarrow> bool" where
  "well_bracketed s = (scan s 0 = Some 0)"

text \<open>
  One bracketed group: an opening bracket, a text whose brackets match, and a closing
  bracket. So the first bracket closes at the last character and nowhere before:
  \<^verbatim>\<open>((a) OR (b))\<close> is one group, \<^verbatim>\<open>(a) OR (b)\<close> is not.
\<close>

definition one_group :: "string \<Rightarrow> bool" where
  "one_group s =
     (2 \<le> length s \<and> hd s = CHR ''('' \<and> last s = CHR '')'' \<and> well_bracketed (butlast (tl s)))"

text \<open>A text as one group: itself when it is one already, in a pair of brackets otherwise.\<close>

definition as_group :: "string \<Rightarrow> string" where
  "as_group t = (if one_group t then t else ''('' @ t @ '')'')"

text \<open>A value that is not a builder: its placeholders bring no text of their own.\<close>

fun no_builder :: "jval \<Rightarrow> bool" where
  "no_builder (JSelect alias f) = False"
| "no_builder v = True"

text \<open>
  A condition tree whose leaves have matching brackets: every fragment, and the source
  name, field and operator of every term; and no value is a builder.
\<close>

fun balanced_leaves :: "source \<Rightarrow> condition \<Rightarrow> bool" where
  "balanced_leaves src (ConditionAnd cs) = list_all (balanced_leaves src) cs"
| "balanced_leaves src (ConditionOr cs) = list_all (balanced_leaves src) cs"
| "balanced_leaves src (Raw r) =
     (well_bracketed (fragment r) \<and>
      list_all no_builder (case raw_values r of None \<Rightarrow> [] | Some vs \<Rightarrow> vs))"
| "balanced_leaves src (ConditionTerm f operator v) =
     (well_bracketed (source_name src @ ''.'' @ f @ '' '' @
        (case operator of None \<Rightarrow> ''='' | Some op \<Rightarrow> op)) \<and> no_builder v)"

text \<open>A condition tree without an empty \<^verbatim>\<open>$and\<close> or \<^verbatim>\<open>$or\<close> list and without an empty fragment.\<close>

fun nonempty_groups :: "condition \<Rightarrow> bool" where
  "nonempty_groups (ConditionAnd cs) = (cs \<noteq> [] \<and> list_all nonempty_groups cs)"
| "nonempty_groups (ConditionOr cs) = (cs \<noteq> [] \<and> list_all nonempty_groups cs)"
| "nonempty_groups (Raw r) = (fragment r \<noteq> [])"
| "nonempty_groups (ConditionTerm f operator v) = True"

text \<open>A value that takes one placeholder: neither an array nor a builder.\<close>

fun scalar :: "jval \<Rightarrow> bool" where
  "scalar (JArr xs) = False"
| "scalar (JSelect alias f) = False"
| "scalar v = True"

subsection \<open>Queries of the repository's compiler tests, and further queries\<close>

definition test_source :: source where
  "test_source = \<lparr>source_name = ''test'', source_identifyingProperties = [''id''], has = [], belongsTo = []\<rparr>"

definition read_test :: query where
  "read_test = \<lparr>source = test_source, returning = [], joins = None, data = JUndefined,
     field_list = None, conditions = None, order_by = None, page = None\<rparr>"

definition tasks_source :: source where
  "tasks_source = \<lparr>source_name = ''tasks'', source_identifyingProperties = [''id''], has = [], belongsTo = []\<rparr>"

definition owner_join :: join_spec where
  "owner_join = \<lparr>join_source = ''users'', join_path = [''owner''], join_from = ''owner'', join_to = ''id''\<rparr>"

definition project_join :: join_spec where
  "project_join = \<lparr>join_source = ''projects'', join_path = [''project''], join_from = ''project'', join_to = ''id''\<rparr>"

definition create_test :: query where
  "create_test = \<lparr>source = tasks_source, returning = [], joins = Some [owner_join, project_join],
     data = JObj [(''name'', JStr ''new task''), (''project'', JObj [(''name'', JStr ''new project'')]),
                  (''owner'', JObj [(''name'', JStr ''new user'')])],
     field_list = None, conditions = None, order_by = None, page = None\<rparr>"

definition read_by_id :: query where
  "read_by_id = read_test\<lparr>conditions := Some [ConditionTerm ''id'' None (JNum 2)]\<rparr>"

definition users_join :: join_spec where
  "users_join = \<lparr>join_source = ''users'', join_path = [''test'', ''users''],
     join_from = ''owner_id'', join_to = ''id''\<rparr>"

definition read_users :: query where
  "read_users = read_test\<lparr>joins := Some [users_join]\<rparr>"

definition read_owner :: query where
  "read_owner = read_test\<lparr>joins := Some [\<lparr>join_source = ''users'', join_path = [''owner''],
     join_from = ''owner_id'', join_to = ''id''\<rparr>]\<rparr>"

definition read_page :: query where
  "read_page = read_test\<lparr>page := Some \<lparr>page_size = 5, page_number = 4\<rparr>\<rparr>"

definition read_big_page :: query where
  "read_big_page = read_test\<lparr>page := Some \<lparr>page_size = 94906267, page_number = 94906268\<rparr>\<rparr>"

definition address_join :: join_spec where
  "address_join = \<lparr>join_source = ''addresses'', join_path = [''owner'', ''address''],
     join_from = ''address'', join_to = ''id''\<rparr>"

definition create_nested :: query where
  "create_nested = create_test\<lparr>joins := Some [owner_join, address_join],
     data := JObj [(''name'', JStr ''new task''),
                   (''owner'', JObj [(''name'', JStr ''new user''),
                                     (''address'', JObj [(''city'', JStr ''Leeds'')])])]\<rparr>"

definition create_null_owner :: query where
  "create_null_owner = create_test\<lparr>joins := Some [owner_join],
     data := JObj [(''name'', JStr ''new task''), (''owner'', JNull)]\<rparr>"

definition or_id_name :: condition where
  "or_id_name = ConditionOr [ConditionTerm ''id'' None (JNum 5), ConditionTerm ''name'' None (JStr ''test'')]"

definition or_raw_like :: condition where
  "or_raw_like = ConditionOr [Raw \<lparr>fragment = ''CONCAT(test.name, test.description) LIKE ?'',
                                   raw_values = Some [JStr ''%test%'']\<rparr>,
                             ConditionTerm ''description'' (Some ''LIKE'') (JStr ''%test%'')]"

text \<open>A fragment that closes a bracket it did not open.\<close>

definition unbalanced_raw :: condition where
  "unbalanced_raw = Raw \<lparr>fragment = ''a = 1) OR (b = 2'', raw_values = None\<rparr>"

section \<open>Discovery scope: results\<close>


text \<open>The term that \<^verbatim>\<open>scopeTerm\<close> hands to the catalogue query, for each scope.\<close>

lemma scopeTerm_templates:
  "scopeTerm f None = Inr (''FALSE'', [FName f]) \<and>
   scopeTerm f (Some ScopeAll) = Inr (''TRUE'', [FName f]) \<and>
   scopeTerm f (Some (ScopeOnly xs)) = Inr (''$1:name IN ($2:csv)'', [FName f, FCsv xs]) \<and>
   scopeTerm f (Some (ScopeExcept xs)) = Inr (''$1:name NOT IN ($2:csv)'', [FName f, FCsv xs])"
  by simp

section \<open>Schema synthesizer: results\<close>

subsection \<open>Enumerations\<close>

lemma dot_run_le: "dot_run s \<le> length s"
  by (induction s) auto

lemma dot_run_ge: "no_terminator xs \<Longrightarrow> length xs \<le> dot_run (xs @ ys)"
  by (induction xs) (auto simp: line_terminator_at_def no_terminator_def)

lemma first_match_none:
  "(\<And>n. n \<le> N \<Longrightarrow> f n = None) \<Longrightarrow> first_match f (rev [0..<Suc N]) = None"
  by (induction N) simp_all

lemma first_match_only:
  "k \<le> N \<Longrightarrow> (\<And>n. n \<le> N \<Longrightarrow> n \<noteq> k \<Longrightarrow> f n = None) \<Longrightarrow>
   first_match f (rev [0..<Suc N]) = f k"
proof (induction N)
  case 0
  then show ?case by (simp split: option.splits)
next
  case (Suc N)
  show ?case
  proof (cases "k = Suc N")
    case True
    have "first_match f (rev [0..<Suc N]) = None"
      by (rule first_match_none) (use Suc.prems(2) True in auto)
    with True show ?thesis by (simp split: option.splits)
  next
    case False
    with Suc.prems(1) have k: "k \<le> N" by simp
    from False have "f (Suc N) = None" using Suc.prems(2) [of "Suc N"] by simp
    moreover have "first_match f (rev [0..<Suc N]) = f k"
      using Suc.IH [OF k] Suc.prems(2) by simp
    ultimately show ?thesis by simp
  qed
qed

lemma nth_unique:
  assumes "c \<notin> set xs" and "c \<notin> set ys" and "i < length (xs @ c # ys)"
    and "(xs @ c # ys) ! i = c"
  shows "i = length xs"
proof (rule ccontr)
  assume n: "i \<noteq> length xs"
  show False
  proof (cases "i < length xs")
    case True
    with assms(4) have "xs ! i = c" by (simp add: nth_append)
    with True assms(1) show False using nth_mem by metis
  next
    case False
    with n have g: "length xs < i" by simp
    then obtain j where j: "i = length xs + Suc j" using less_iff_Suc_add by auto
    with assms(3,4) have "ys ! j = c" "j < length ys" by (simp_all add: nth_append)
    with assms(2) show False using nth_mem by metis
  qed
qed

lemma lit_at:
  assumes "take (length (p @ c # q)) (drop n s) = p @ c # q"
  shows "n + length p < length s \<and> s ! (n + length p) = c"
proof -
  from assms have "length (take (length (p @ c # q)) (drop n s)) = length (p @ c # q)" by simp
  then have b: "n + length p < length s" by (simp add: min_def split: if_splits)
  from assms have "take (length (p @ c # q)) (drop n s) ! length p = (p @ c # q) ! length p"
    by simp
  then have "drop n s ! length p = c" by simp
  with b show ?thesis by (simp add: add.commute)
qed

lemma lit_unique:
  assumes "c \<notin> set xs" and "c \<notin> set p" and "c \<notin> set (q @ ys)"
    and "take (length (p @ c # q)) (drop n (xs @ p @ c # q @ ys)) = p @ c # q"
  shows "n = length xs"
proof -
  from lit_at [OF assms(4)]
  have a: "n + length p < length ((xs @ p) @ c # (q @ ys))"
    "((xs @ p) @ c # (q @ ys)) ! (n + length p) = c"
    by simp_all
  have "n + length p = length (xs @ p)"
    by (rule nth_unique [OF _ assms(3) a]) (use assms(1,2) in simp)
  then show ?thesis by simp
qed

lemma lit_elsewhere:
  assumes "c \<notin> set xs" and "c \<notin> set p" and "c \<notin> set (q @ ys)" and "n \<noteq> length xs"
  shows "rx_match (Lit (p @ c # q) # r) (drop n (xs @ p @ c # q @ ys)) = None"
  using lit_unique [OF assms(1-3), of n] assms(4) by auto

lemma lit_here:
  "rx_match (Lit l # r) (drop (length xs) (xs @ l @ ys)) = rx_match r ys"
  by simp

lemma dotstar_lit:
  assumes "no_terminator xs" and "c \<notin> set xs" and "c \<notin> set p" and "c \<notin> set (q @ ys)"
  shows "rx_match (DotStar # Lit (p @ c # q) # r) (xs @ (p @ c # q) @ ys) = rx_match r ys"
proof -
  let ?s = "xs @ (p @ c # q) @ ys"
  let ?f = "\<lambda>n. rx_match (Lit (p @ c # q) # r) (drop n ?s)"
  have "first_match ?f (rev [0..<Suc (dot_run ?s)]) = ?f (length xs)"
  proof (rule first_match_only)
    show "length xs \<le> dot_run ?s" using assms(1) by (rule dot_run_ge)
  next
    fix n assume "n \<noteq> length xs"
    then show "?f n = None" using lit_elsewhere [OF assms(2-4)] by simp
  qed
  also have "?f (length xs) = rx_match r ys" by (rule lit_here)
  finally show ?thesis by simp
qed

lemma group_lit:
  assumes "no_terminator xs" and "c \<notin> set xs" and "c \<notin> set p" and "c \<notin> set (q @ ys)"
  shows "rx_match (Group # Lit (p @ c # q) # r) (xs @ (p @ c # q) @ ys)
           = map_option ((#) xs) (rx_match r ys)"
proof -
  let ?s = "xs @ (p @ c # q) @ ys"
  let ?f = "\<lambda>n. map_option ((#) (take n ?s)) (rx_match (Lit (p @ c # q) # r) (drop n ?s))"
  have "first_match ?f (rev [0..<Suc (dot_run ?s)]) = ?f (length xs)"
  proof (rule first_match_only)
    show "length xs \<le> dot_run ?s" using assms(1) by (rule dot_run_ge)
  next
    fix n assume "n \<noteq> length xs"
    then show "?f n = None" using lit_elsewhere [OF assms(2-4)] by simp
  qed
  also have "?f (length xs) = map_option ((#) xs) (rx_match r ys)"
    using lit_here [of "p @ c # q" r xs ys] by simp
  finally show ?thesis by simp
qed

lemma dotstar_end: "rx_match [DotStar] s = Some []"
  by simp


lemma check_regex_source:
  assumes "\<forall>c\<in>set col. plain c"
    and "no_terminator body" and "CHR ''['' \<notin> set body" and "CHR '']'' \<notin> set body"
  shows "rx_match ENUM_CHECK_REGEX (''('' @ col @ '' = ANY (ARRAY['' @ body @ '']))'') = Some [body]"
proof -
  have col: "no_terminator col" "CHR ''['' \<notin> set col"
    using assms(1) by (auto simp: plain_def no_terminator_def)
  have "rx_match ENUM_CHECK_REGEX (''('' @ col @ '' = ANY (ARRAY['' @ body @ '']))'')
      = rx_match [DotStar, Lit ('' = ANY (ARRAY'' @ CHR ''['' # []), Group, Lit ([] @ CHR '']'' # ''))'')]
          (col @ ('' = ANY (ARRAY'' @ CHR ''['' # []) @ (body @ ([] @ CHR '']'' # ''))'') @ []))"
    by (simp add: ENUM_CHECK_REGEX_def)
  also have "\<dots> = rx_match [Group, Lit ([] @ CHR '']'' # ''))'')] (body @ ([] @ CHR '']'' # ''))'') @ [])"
    by (rule dotstar_lit) (use col assms(3) in auto)
  also have "\<dots> = map_option ((#) body) (rx_match [] [])"
    by (rule group_lit) (use assms(2,4) in auto)
  finally show ?thesis by simp
qed

lemma extract_value_literal:
  assumes "\<forall>c\<in>set v. plain c" and "\<forall>c\<in>set ty. plain c"
  shows "extract_value (literal (v, ty)) = Some v"
proof -
  have v: "no_terminator v" "CHR 0x27 \<notin> set v" "CHR 0x27 \<notin> set ty"
    using assms by (auto simp: plain_def no_terminator_def)
  have "rx_match ENUM_EXTRACT_VALUE_REGEX (literal (v, ty))
      = rx_match [Group, Lit ([] @ CHR 0x27 # ''::''), DotStar] (v @ ([] @ CHR 0x27 # ''::'') @ ty)"
    by (simp add: ENUM_EXTRACT_VALUE_REGEX_def literal_def)
  also have "\<dots> = map_option ((#) v) (rx_match [DotStar] ty)"
    by (rule group_lit) (use v in auto)
  finally show ?thesis by (simp add: extract_value_def)
qed

lemma split_acc_no_comma:
  "CHR '','' \<notin> set s \<Longrightarrow> split_acc '', '' acc s = [acc @ s]"
  by (induction s arbitrary: acc) auto

lemma split_acc_comma:
  "CHR '','' \<notin> set x \<Longrightarrow> split_acc '', '' acc (x @ '', '' @ rest) = (acc @ x) # split_acc '', '' [] rest"
  by (induction x arbitrary: acc) auto

lemma split_join:
  assumes "\<forall>x\<in>set xs. CHR '','' \<notin> set x" and "xs \<noteq> []"
  shows "split (join xs '', '') '', '' = xs"
  using assms
proof (induction xs "'', ''" rule: join.induct)
  case 1
  then show ?case by simp
next
  case (2 x)
  then show ?case by (simp add: split_def split_acc_no_comma)
next
  case (3 x y ys)
  then have "split_acc '', '' [] (join (y # ys) '', '') = y # ys" by (simp add: split_def)
  with 3 show ?case using split_acc_comma [of x "[]" "join (y # ys) '', ''"]
    by (simp add: split_def)
qed


lemma set_join: "set (join xs sep) \<subseteq> (\<Union>x\<in>set xs. set x) \<union> set sep"
  by (induction xs sep rule: join.induct) auto

lemma set_literal: "set (literal l) \<subseteq> set (fst l) \<union> set (snd l) \<union> {CHR 0x27, CHR '':''}"
  by (auto simp: literal_def)

lemma enum_values_nonempty:
  "s \<noteq> [] \<Longrightarrow> enum_values (Some s) =
     (case rx_match ENUM_CHECK_REGEX s of
        Some ((r # rs) # _) \<Rightarrow> truthy_strings (map extract_value (split (r # rs) '', ''))
      | _ \<Rightarrow> [])"
  by (cases s) (simp_all add: enum_values_def)

lemma truthy_strings_Some:
  "\<forall>x\<in>set xs. x \<noteq> [] \<Longrightarrow> truthy_strings (map Some xs) = xs"
  by (induction xs) (auto simp: truthy_strings_def split: list.splits)

lemma enum_values_source:
  assumes col: "\<forall>c\<in>set col. plain c"
    and lits: "\<forall>l\<in>set lits. fst l \<noteq> [] \<and> (\<forall>c\<in>set (fst l). plain c) \<and> (\<forall>c\<in>set (snd l). plain c)"
  shows "enum_values (Some (check_source col lits)) = map fst lits"
proof -
  let ?body = "join (map literal lits) '', ''"
  have chars: "\<forall>c\<in>set ?body. c \<noteq> CHR ''['' \<and> c \<noteq> CHR '']'' \<and> c \<noteq> CHR 0x0A \<and> c \<noteq> CHR 0x0D \<and> c \<noteq> CHR 0xE2"
  proof
    fix c assume "c \<in> set ?body"
    with set_join [of "map literal lits" "'', ''"]
    consider l where "l \<in> set lits" "c \<in> set (literal l)" | "c \<in> set '', ''" by auto
    then show "c \<noteq> CHR ''['' \<and> c \<noteq> CHR '']'' \<and> c \<noteq> CHR 0x0A \<and> c \<noteq> CHR 0x0D \<and> c \<noteq> CHR 0xE2"
    proof cases
      case 1
      with set_literal [of l] lits show ?thesis by (auto simp: plain_def)
    next
      case 2
      then show ?thesis by auto
    qed
  qed
  have m: "rx_match ENUM_CHECK_REGEX (check_source col lits) = Some [?body]"
    unfolding check_source_def
    by (rule check_regex_source) (use col chars in \<open>auto simp: no_terminator_def\<close>)
  have ne: "check_source col lits \<noteq> []" by (simp add: check_source_def)
  show ?thesis
  proof (cases lits)
    case Nil
    then have "?body = []" by simp
    with m have "rx_match ENUM_CHECK_REGEX (check_source col lits) = Some [[]]" by simp
    then have "enum_values (Some (check_source col lits)) = []"
      by (simp add: enum_values_nonempty [OF ne])
    with Nil show ?thesis by simp
  next
    case (Cons l ls)
    then have "?body \<noteq> []" by (cases ls) (simp_all add: literal_def)
    then obtain r rs where r: "?body = r # rs" by (cases ?body) auto
    have nc: "\<forall>x\<in>set (map literal lits). CHR '','' \<notin> set x"
      using lits set_literal by (fastforce simp: plain_def)
    have sp: "split ?body '', '' = map literal lits"
      by (rule split_join [OF nc]) (simp add: Cons)
    have ex: "map extract_value (map literal lits) = map Some (map fst lits)"
      using lits extract_value_literal by (auto simp: o_def)
    have "enum_values (Some (check_source col lits)) = truthy_strings (map extract_value (split ?body '', ''))"
      using m r by (simp add: enum_values_nonempty [OF ne])
    also have "\<dots> = map fst lits"
      unfolding sp ex by (rule truthy_strings_Some) (use lits in auto)
    finally show ?thesis .
  qed
qed

text \<open>
  C5, as the code has it. The enumeration of a column with constraints is the
  concatenation of what each constraint contributes; a constraint of the shape
  \<open>check_source\<close>, with plain column, literal and type texts and no empty literal,
  contributes its literals without the quotes and the casts; the constraint of the
  repository's test gives good, average, bad; a column without constraints gets no
  \<open>enum\<close> attribute.
\<close>

theorem isEnumConstraint_extracts:
  "(constraints c = Some cs \<and> cs \<noteq> [] \<longrightarrow>
      isEnumConstraint c = JObj [(''enum'', JArr (map JStr (concat (map enum_values cs))))]) \<and>
   ((\<forall>ch\<in>set col. plain ch) \<and>
    (\<forall>l\<in>set lits. fst l \<noteq> [] \<and> (\<forall>ch\<in>set (fst l). plain ch) \<and> (\<forall>ch\<in>set (snd l). plain ch)) \<longrightarrow>
      enum_values (Some (check_source col lits)) = map fst lits) \<and>
   isEnumConstraint test_rating = JObj [(''enum'', JArr [JStr ''good'', JStr ''average'', JStr ''bad''])] \<and>
   (constraints c' = None \<or> constraints c' = Some [] \<longrightarrow> isEnumConstraint c' = JObj [])"
proof (intro conjI impI)
  assume "constraints c = Some cs \<and> cs \<noteq> []"
  then show "isEnumConstraint c = JObj [(''enum'', JArr (map JStr (concat (map enum_values cs))))]"
    by (auto simp: isEnumConstraint_def)
next
  assume "(\<forall>ch\<in>set col. plain ch) \<and>
    (\<forall>l\<in>set lits. fst l \<noteq> [] \<and> (\<forall>ch\<in>set (fst l). plain ch) \<and> (\<forall>ch\<in>set (snd l). plain ch))"
  then show "enum_values (Some (check_source col lits)) = map fst lits"
    using enum_values_source by blast
next
  show "isEnumConstraint test_rating =
          JObj [(''enum'', JArr [JStr ''good'', JStr ''average'', JStr ''bad''])]"
    by code_simp
next
  assume "constraints c' = None \<or> constraints c' = Some []"
  then show "isEnumConstraint c' = JObj []"
    by (auto simp: isEnumConstraint_def)
qed

theorem isEnumConstraint_extracts_witness:
  "constraints test_rating =
     Some [Some (check_source ''rating'' [(''good'', ''text''), (''average'', ''text''), (''bad'', ''text'')])] \<and>
   isEnumConstraint test_rating =
     JObj [(''enum'', JArr (map JStr [''good'', ''average'', ''bad'']))] \<and>
   enum_values (Some (check_source ''rating''
       [(''good'', ''text''), (''average'', ''text''), (''bad'', ''text'')]))
     = [''good'', ''average'', ''bad''] \<and>
   constraints test_forename = None \<and> isEnumConstraint test_forename = JObj []"
proof -
  let ?lits = "[(''good'', ''text''), (''average'', ''text''), (''bad'', ''text'')]"
  have c: "constraints test_rating = Some [Some (check_source ''rating'' ?lits)]"
    by (simp add: test_rating_def check_source_def literal_def)
  have p: "(\<forall>ch\<in>set ''rating''. plain ch) \<and>
    (\<forall>l\<in>set ?lits. fst l \<noteq> [] \<and> (\<forall>ch\<in>set (fst l). plain ch) \<and> (\<forall>ch\<in>set (snd l). plain ch))"
    by (simp add: plain_def)
  have n: "constraints test_forename = None" by (simp add: test_forename_def)
  show ?thesis
    using c p n isEnumConstraint_extracts
      [of test_rating "[Some (check_source ''rating'' ?lits)]" "''rating''" ?lits test_forename]
    by simp
qed

text \<open>
  The text of the specification's scenario has no space after the commas. The code splits
  on comma and space, so the group stays in one piece and the greedy pattern keeps all of
  it up to the last cast.
\<close>

theorem isEnumConstraint_counterexample:
  "isEnumConstraint spec_rating = JObj [(''enum'', JArr [JStr ''good'::text,'average'::text,'bad''])] \<and>
   isEnumConstraint spec_rating \<noteq> JObj [(''enum'', JArr [JStr ''good'', JStr ''average'', JStr ''bad''])]"
  by code_simp

text \<open>
  A column whose only constraint does not match still gets the attribute, with no values:
  the list kept for the constraint is empty, and an empty list is truthy.
\<close>

lemma isEnumConstraint_no_match: "isEnumConstraint test_age = JObj [(''enum'', JArr [])]"
  by code_simp

subsection \<open>Read-only and required\<close>

lemma map_of_assign: "map_of (assign k v kvs) = (map_of kvs)(k \<mapsto> v)"
  by (induction kvs) (auto simp: fun_eq_iff)

lemma map_of_assign_fold:
  "map_of (foldl (\<lambda>acc (k, v). assign k v acc) tgt kvs) = map_of tgt ++ map_of (rev kvs)"
proof (induction kvs arbitrary: tgt)
  case Nil
  then show ?case by simp
next
  case (Cons kv kvs)
  obtain k v where kv: "kv = (k, v)" by (cases kv)
  show ?case
    by (simp add: kv Cons.IH map_of_assign fun_eq_iff map_add_def split: option.splits)
qed













section \<open>Query compiler: results\<close>

subsection \<open>Conditions\<close>

lemma foldl_expr_add:
  "foldl (\<lambda>result c. expr_add result (g c)) (Expression ns) cs = Expression (ns @ map g cs)"
  by (induction cs arbitrary: ns) simp_all

lemma addQueryCondition_And:
  "addQueryCondition src (ConditionAnd cs) =
     Expression (map (\<lambda>c. ExprNode NodeAND (addQueryCondition src c)) cs)"
  by (simp add: foldl_expr_add)

lemma addQueryCondition_Or:
  "addQueryCondition src (ConditionOr cs) =
     Expression (map (\<lambda>c. ExprNode NodeOR (addQueryCondition src c)) cs)"
  by (simp add: foldl_expr_add)

lemma expression_param_nested:
  "fst (expression_param True e) = applyNestingFormatting (fst (expression_param False e)) True"
  by (cases e) (simp add: Let_def applyNestingFormatting_def)

lemma join_node_texts:
  "join (node_texts (map (\<lambda>c. (t, g c, h c)) cs)) '' '' = join (map g cs) ('' '' @ type_text t @ '' '')"
proof (induction cs)
  case Nil
  then show ?case by simp
next
  case (Cons c cs)
  have tail: "join (x # concat (map (\<lambda>(t, text, vs). [type_text t, text]) (map (\<lambda>c. (t, g c, h c)) cs))) '' ''
      = join (x # map g cs) ('' '' @ type_text t @ '' '')" for x
    by (induction cs arbitrary: x) simp_all
  show ?case using tail [of "g c"] by simp
qed

lemma group_text:
  "fst (expression_param False (Expression (map (\<lambda>c. ExprNode t (f c)) cs)))
     = join (map (\<lambda>c. applyNestingFormatting (fst (expression_param False (f c))) True) cs)
         ('' '' @ type_text t @ '' '')"
proof -
  have "map node_param (map (\<lambda>c. ExprNode t (f c)) cs)
          = map (\<lambda>c. (t, fst (expression_param True (f c)), snd (expression_param True (f c)))) cs"
    by simp
  then show ?thesis
    by (simp add: Let_def applyNestingFormatting_def join_node_texts expression_param_nested
        del: map_map)
qed

lemma condition_text_And:
  "condition_text src (ConditionAnd cs) =
     join (map (\<lambda>c. applyNestingFormatting (condition_text src c) True) cs) '' AND ''"
  unfolding condition_text_def addQueryCondition_And group_text by (simp add: type_text_def)

lemma condition_text_Or:
  "condition_text src (ConditionOr cs) =
     join (map (\<lambda>c. applyNestingFormatting (condition_text src c) True) cs) '' OR ''"
  unfolding condition_text_def addQueryCondition_Or group_text by (simp add: type_text_def)

lemma applyNestingFormatting_nonempty:
  "s \<noteq> [] \<Longrightarrow> applyNestingFormatting s nesting \<noteq> []"
  by (simp add: applyNestingFormatting_def)

lemma format_param_nonempty: "fst (format_param v) \<noteq> []"
  by (cases v) (simp_all add: nested_select_def applyNestingFormatting_def)

lemma buildString_Cons:
  "fst (buildString (c # cs) vs) =
     (if c = CHR ''?''
      then fst (format_param (case vs of [] \<Rightarrow> JUndefined | v # _ \<Rightarrow> v)) @ fst (buildString cs (tl vs))
      else c # fst (buildString cs vs))"
  by (simp add: Let_def split: prod.splits)

lemma buildString_nonempty: "s \<noteq> [] \<Longrightarrow> fst (buildString s vs) \<noteq> []"
  by (cases s) (simp_all add: buildString_Cons format_param_nonempty del: buildString.simps(2))

lemma single_node_text:
  "fst (expression_param False (Expression [StrNode t e para])) = fst (buildString e para)"
  by (cases "buildString e para") (simp add: applyNestingFormatting_def)

lemma join_nonempty: "xs \<noteq> [] \<Longrightarrow> hd xs \<noteq> [] \<Longrightarrow> join xs sep \<noteq> []"
  by (induction xs sep rule: join.induct) simp_all

lemma condition_text_nonempty:
  "nonempty_groups c \<Longrightarrow> condition_text src c \<noteq> []"
proof (induction c)
  case (ConditionAnd cs)
  then have "cs \<noteq> []" and "condition_text src (hd cs) \<noteq> []"
    by (auto simp: list_all_iff)
  then show ?case
    unfolding condition_text_And
    by (intro join_nonempty) (simp_all add: hd_map applyNestingFormatting_nonempty)
next
  case (ConditionOr cs)
  then have "cs \<noteq> []" and "condition_text src (hd cs) \<noteq> []"
    by (auto simp: list_all_iff)
  then show ?case
    unfolding condition_text_Or
    by (intro join_nonempty) (simp_all add: hd_map applyNestingFormatting_nonempty)
next
  case (Raw r)
  then show ?case
    by (simp add: condition_text_def single_node_text buildString_nonempty del: expression_param.simps)
next
  case (ConditionTerm f operator v)
  show ?case
    by (simp add: condition_text_def single_node_text buildString_nonempty del: expression_param.simps)
qed

lemma buildString_append:
  "CHR ''?'' \<notin> set s \<Longrightarrow> fst (buildString (s @ t) vs) = s @ fst (buildString t vs)"
  by (induction s) (auto simp add: buildString_Cons simp del: buildString.simps(2))

lemma format_param_scalar: "scalar v \<Longrightarrow> format_param v = (''?'', [v])"
  by (cases v) simp_all

lemma term_text:
  assumes "CHR ''?'' \<notin> set (source_name src)" and "CHR ''?'' \<notin> set f" and "scalar v"
  shows "condition_text src (ConditionTerm f None v) = source_name src @ ''.'' @ f @ '' = ?''"
proof -
  have "fst (buildString ((source_name src @ ''.'' @ f @ '' = '') @ ''?'') [v])
          = (source_name src @ ''.'' @ f @ '' = '') @ fst (buildString ''?'' [v])"
    by (rule buildString_append) (use assms in auto)
  then show ?thesis
    using assms(3)
    by (simp add: condition_text_def single_node_text format_param_scalar del: expression_param.simps)
qed

lemma nest_placeholder:
  "applyNestingFormatting (s @ ''?'') True = ''('' @ s @ ''?)''"
  by (simp add: applyNestingFormatting_def alreadyHasBrackets_def)

text \<open>Brackets that match, and one bracketed group.\<close>

lemma scan_append:
  "scan (xs @ ys) d = (case scan xs d of None \<Rightarrow> None | Some e \<Rightarrow> scan ys e)"
  by (induction xs arbitrary: d) simp_all

lemma scan_shift: "scan s d = Some e \<Longrightarrow> scan s (d + k) = Some (e + k)"
proof (induction s arbitrary: d)
  case Nil
  then show ?case by simp
next
  case (Cons c cs)
  show ?case
  proof (cases "c = CHR '')''")
    case True
    with Cons.prems have d: "d \<noteq> 0" and s: "scan cs (d - 1) = Some e"
      by (simp_all split: if_splits)
    from Cons.IH [OF s] d have "scan cs (d + k - 1) = Some (e + k)"
      by (cases d) simp_all
    with True d show ?thesis by simp
  next
    case False
    with Cons.prems Cons.IH [of "Suc d"] Cons.IH [of d] show ?thesis
      by (simp split: if_splits)
  qed
qed

lemma span_iff: "brackets_span m (Suc d) = (scan m d \<noteq> None)"
proof (induction m arbitrary: d)
  case Nil
  then show ?case by simp
next
  case (Cons c cs)
  show ?case
  proof (cases "c = CHR '')''")
    case True
    show ?thesis
    proof (cases d)
      case 0
      with True show ?thesis by simp
    next
      case (Suc d')
      with True Cons.IH [of d'] show ?thesis by simp
    qed
  next
    case False
    with Cons.IH [of "Suc d"] Cons.IH [of d] show ?thesis by simp
  qed
qed

lemma no_bracket_scan:
  "CHR ''('' \<notin> set s \<Longrightarrow> CHR '')'' \<notin> set s \<Longrightarrow> scan (s @ r) d = scan r d"
  by (induction s) auto

lemma well_bracketed_append:
  "well_bracketed xs \<Longrightarrow> well_bracketed ys \<Longrightarrow> well_bracketed (xs @ ys)"
  by (simp add: well_bracketed_def scan_append)

lemma well_bracketed_wrap: "well_bracketed t \<Longrightarrow> scan (''('' @ t @ '')'') 0 = Some 0"
proof -
  assume "well_bracketed t"
  then have "scan t (0 + 1) = Some (0 + 1)" unfolding well_bracketed_def by (rule scan_shift)
  then show ?thesis by (simp add: scan_append)
qed

lemma one_group_wrap: "well_bracketed t \<Longrightarrow> one_group (''('' @ t @ '')'')"
  by (simp add: one_group_def)

lemma one_group_decompose:
  "one_group s \<Longrightarrow> \<exists>m. s = ''('' @ m @ '')'' \<and> well_bracketed m"
proof -
  assume g: "one_group s"
  then obtain c cs where s: "s = c # cs" by (cases s) (auto simp: one_group_def)
  with g have c: "c = CHR ''(''" and cs: "cs \<noteq> []" by (auto simp: one_group_def)
  from cs have "cs = butlast cs @ [last cs]" by simp
  moreover from g s cs have "last cs = CHR '')''" by (simp add: one_group_def)
  ultimately have "s = ''('' @ butlast cs @ '')''" using s c by simp
  moreover from g s have "well_bracketed (butlast cs)" by (simp add: one_group_def)
  ultimately show ?thesis by blast
qed

lemma one_group_well_bracketed: "one_group s \<Longrightarrow> well_bracketed s"
  using one_group_decompose well_bracketed_wrap by (fastforce simp: well_bracketed_def)

lemma as_group_one_group: "well_bracketed t \<Longrightarrow> one_group (as_group t)"
  using one_group_wrap [of t] by (simp add: as_group_def)

text \<open>
  On a text whose brackets match, the test of \<^verbatim>\<open>_applyNestingFormatting\<close> holds exactly
  when the text is one bracketed group.
\<close>

lemma alreadyHasBrackets_one_group:
  assumes "well_bracketed t"
  shows "alreadyHasBrackets t = one_group t"
proof
  assume a: "alreadyHasBrackets t"
  then obtain c cs where t: "t = c # cs" by (cases t) (auto simp: alreadyHasBrackets_def)
  with a have c: "c = CHR ''(''" and l: "last (c # cs) = CHR '')''"
    and sp: "brackets_span (butlast cs) (Suc 0)"
    by (auto simp: alreadyHasBrackets_def)
  from c l have cs: "cs \<noteq> []" by auto
  with l have lc: "last cs = CHR '')''" by simp
  from cs have e: "cs = butlast cs @ [last cs]" by simp
  from assms t c have "scan cs (Suc 0) = Some 0" by (simp add: well_bracketed_def)
  then have "scan (butlast cs @ '')'') (Suc 0) = Some 0" using e lc by simp
  then obtain x where x: "scan (butlast cs) (Suc 0) = Some x" and "scan '')'' x = Some 0"
    by (auto simp: scan_append split: option.splits)
  then have x1: "x = Suc 0" by (simp split: if_splits)
  from sp obtain y where y: "scan (butlast cs) 0 = Some y" by (auto simp: span_iff)
  from scan_shift [OF y, of 1] x x1 have "y = 0" by simp
  with y t c cs lc show "one_group t"
    by (cases cs) (simp_all add: one_group_def well_bracketed_def)
next
  assume g: "one_group t"
  then show "alreadyHasBrackets t"
    by (cases t) (auto simp: one_group_def alreadyHasBrackets_def well_bracketed_def span_iff)
qed

lemma nest_as_group:
  "t \<noteq> [] \<Longrightarrow> well_bracketed t \<Longrightarrow> applyNestingFormatting t True = as_group t"
  by (simp add: applyNestingFormatting_def as_group_def alreadyHasBrackets_one_group)


lemma join_no_char:
  "\<forall>x \<in> set xs. c \<notin> set x \<Longrightarrow> c \<notin> set sep \<Longrightarrow> c \<notin> set (join xs sep)"
  by (induction xs sep rule: join.induct) auto

lemma format_param_scan: "no_builder v \<Longrightarrow> scan (fst (format_param v)) d = Some d"
proof (cases v)
  case (JArr xs)
  have "CHR ''('' \<notin> set (join (map (\<lambda>x. ''?'') xs) '', '')"
    and "CHR '')'' \<notin> set (join (map (\<lambda>x. ''?'') xs) '', '')"
    by (rule join_no_char; simp)+
  then have "scan (join (map (\<lambda>x. ''?'') xs) '', '' @ '')'') (Suc d) = scan '')'' (Suc d)"
    by (rule no_bracket_scan)
  with JArr show ?thesis by simp
qed simp_all

lemma buildString_scan:
  "list_all no_builder vs \<Longrightarrow> scan (fst (buildString s vs)) d = scan s d"
proof (induction s arbitrary: vs d)
  case Nil
  then show ?case by simp
next
  case (Cons c cs)
  show ?case
  proof (cases "c = CHR ''?''")
    case True
    from Cons.prems have v: "no_builder (case vs of [] \<Rightarrow> JUndefined | v # _ \<Rightarrow> v)"
      and t: "list_all no_builder (tl vs)"
      by (cases vs; simp)+
    from True show ?thesis
      unfolding buildString_Cons
      by (simp add: scan_append format_param_scan [OF v] Cons.IH [OF t])
  next
    case False
    then show ?thesis
      unfolding buildString_Cons by (simp add: Cons.IH [OF Cons.prems])
  qed
qed

lemma join_well_bracketed:
  assumes "\<forall>x \<in> set xs. well_bracketed x" and "well_bracketed sep"
  shows "well_bracketed (join xs sep)"
  using assms by (induction xs sep rule: join.induct) (simp_all add: well_bracketed_def scan_append)

text \<open>The brackets of every compiled condition match.\<close>

lemma condition_text_balanced:
  "nonempty_groups c \<Longrightarrow> balanced_leaves src c \<Longrightarrow> well_bracketed (condition_text src c)"
proof (induction c)
  case (ConditionAnd cs)
  have "\<forall>x \<in> set (map (\<lambda>c. applyNestingFormatting (condition_text src c) True) cs). well_bracketed x"
  proof
    fix x
    assume "x \<in> set (map (\<lambda>c. applyNestingFormatting (condition_text src c) True) cs)"
    then obtain c where c: "c \<in> set cs" and x: "x = applyNestingFormatting (condition_text src c) True"
      by auto
    from c ConditionAnd.prems have n: "nonempty_groups c" and b: "balanced_leaves src c"
      by (simp_all add: list_all_iff)
    from ConditionAnd.IH [OF c n b] have w: "well_bracketed (condition_text src c)" .
    from x nest_as_group [OF condition_text_nonempty [OF n] w] as_group_one_group [OF w]
    show "well_bracketed x" by (simp add: one_group_well_bracketed)
  qed
  then show ?case
    unfolding condition_text_And by (rule join_well_bracketed) (simp add: well_bracketed_def)
next
  case (ConditionOr cs)
  have "\<forall>x \<in> set (map (\<lambda>c. applyNestingFormatting (condition_text src c) True) cs). well_bracketed x"
  proof
    fix x
    assume "x \<in> set (map (\<lambda>c. applyNestingFormatting (condition_text src c) True) cs)"
    then obtain c where c: "c \<in> set cs" and x: "x = applyNestingFormatting (condition_text src c) True"
      by auto
    from c ConditionOr.prems have n: "nonempty_groups c" and b: "balanced_leaves src c"
      by (simp_all add: list_all_iff)
    from ConditionOr.IH [OF c n b] have w: "well_bracketed (condition_text src c)" .
    from x nest_as_group [OF condition_text_nonempty [OF n] w] as_group_one_group [OF w]
    show "well_bracketed x" by (simp add: one_group_well_bracketed)
  qed
  then show ?case
    unfolding condition_text_Or by (rule join_well_bracketed) (simp add: well_bracketed_def)
next
  case (Raw r)
  then show ?case
    by (simp add: condition_text_def single_node_text well_bracketed_def buildString_scan
        del: expression_param.simps)
next
  case (ConditionTerm f operator v)
  define p where "p = source_name src @ ''.'' @ f @ '' '' @
      (case operator of None \<Rightarrow> ''='' | Some op \<Rightarrow> op)"
  from ConditionTerm have "scan p 0 = Some 0" and v: "no_builder v"
    by (simp_all add: p_def well_bracketed_def)
  then have "scan (p @ '' ?'') 0 = Some 0"
    by (simp add: scan_append)
  moreover have "condition_text src (ConditionTerm f operator v) = fst (buildString (p @ '' ?'') [v])"
    by (simp add: condition_text_def single_node_text p_def del: expression_param.simps)
  ultimately show ?case
    using v by (simp add: well_bracketed_def buildString_scan)
qed

lemma children_as_groups:
  assumes "list_all nonempty_groups cs" and "list_all (balanced_leaves src) cs"
  shows "map (\<lambda>c. applyNestingFormatting (condition_text src c) True) cs =
         map (\<lambda>c. as_group (condition_text src c)) cs"
proof (rule map_cong [OF refl])
  fix c
  assume "c \<in> set cs"
  with assms have n: "nonempty_groups c" and b: "balanced_leaves src c"
    by (simp_all add: list_all_iff)
  show "applyNestingFormatting (condition_text src c) True = as_group (condition_text src c)"
    using condition_text_nonempty [OF n] condition_text_balanced [OF n b] by (rule nest_as_group)
qed

lemma children_one_group:
  assumes "list_all nonempty_groups cs" and "list_all (balanced_leaves src) cs"
  shows "list_all (\<lambda>c. one_group (as_group (condition_text src c))) cs"
  unfolding list_all_iff
proof
  fix c
  assume "c \<in> set cs"
  with assms have n: "nonempty_groups c" and b: "balanced_leaves src c"
    by (simp_all add: list_all_iff)
  show "one_group (as_group (condition_text src c))"
    using condition_text_balanced [OF n b] by (rule as_group_one_group)
qed

text \<open>A list of two or more groups is not one group: its first group closes early.\<close>

lemma group_then_more:
  assumes "one_group p" and "r \<noteq> []"
  shows "\<not> one_group (p @ r)"
proof -
  from one_group_decompose [OF assms(1)] obtain m where p: "p = ''('' @ m @ '')''"
    and m: "well_bracketed m" by blast
  from assms(2) have "butlast (tl (p @ r)) = m @ '')'' @ butlast r"
    unfolding p by (simp add: butlast_append)
  moreover from m have "scan (m @ '')'' @ butlast r) 0 = None"
    by (simp add: scan_append well_bracketed_def)
  ultimately show ?thesis by (simp add: one_group_def well_bracketed_def)
qed

lemma join_groups_not_group:
  assumes "2 \<le> length ps" and "one_group (hd ps)" and "sep \<noteq> []"
  shows "\<not> one_group (join ps sep)"
proof -
  from assms(1) obtain x y ys where ps: "ps = x # y # ys"
    by (cases ps; cases "tl ps") auto
  from assms(2) ps have "one_group x" by simp
  moreover from assms(3) have "sep @ join (y # ys) sep \<noteq> []" by simp
  ultimately have "\<not> one_group (x @ sep @ join (y # ys) sep)" by (rule group_then_more)
  with ps show ?thesis by simp
qed

lemma list_text_wrapped:
  assumes "2 \<le> length cs" and "list_all nonempty_groups cs" and "list_all (balanced_leaves src) cs"
  shows "as_group (condition_text src (ConditionAnd cs)) = ''('' @ condition_text src (ConditionAnd cs) @ '')''"
    and "as_group (condition_text src (ConditionOr cs)) = ''('' @ condition_text src (ConditionOr cs) @ '')''"
proof -
  from assms(1) have ne: "cs \<noteq> []" by auto
  let ?ps = "map (\<lambda>c. as_group (condition_text src c)) cs"
  from assms(1) have l: "2 \<le> length ?ps" by simp
  from children_one_group [OF assms(2,3)] ne have h: "one_group (hd ?ps)"
    by (cases cs) simp_all
  have "\<not> one_group (join ?ps '' AND '')" "\<not> one_group (join ?ps '' OR '')"
    using l h by (rule join_groups_not_group, simp)+
  then show "as_group (condition_text src (ConditionAnd cs)) = ''('' @ condition_text src (ConditionAnd cs) @ '')''"
    and "as_group (condition_text src (ConditionOr cs)) = ''('' @ condition_text src (ConditionOr cs) @ '')''"
    unfolding condition_text_And condition_text_Or children_as_groups [OF assms(2,3)]
    by (simp_all add: as_group_def)
qed

text \<open>
  C6, as the code has it. Take a condition tree without an empty \<^verbatim>\<open>$and\<close> or
  \<^verbatim>\<open>$or\<close> list and without an empty fragment, whose fragments, names and operators
  have matching brackets and whose values are not builders. The text of an \<^verbatim>\<open>$and\<close>
  list is the texts of its children joined with AND, and that of an \<^verbatim>\<open>$or\<close> list
  the same with OR, where every child stands as one bracketed group: in a pair of
  brackets, or as it is when it is one bracketed group already. Two lists of two or more
  conditions each, side by side under \<^verbatim>\<open>$and\<close> or \<^verbatim>\<open>$or\<close>, stand each in its own
  pair of brackets. Two terms with single values under \<^verbatim>\<open>$and\<close> compile to the two
  bracketed terms joined with AND.
\<close>

theorem conditions_grouped:
  "(cs \<noteq> [] \<and> list_all nonempty_groups cs \<and> list_all (balanced_leaves src) cs \<longrightarrow>
      condition_text src (ConditionAnd cs) =
        join (map (\<lambda>c. as_group (condition_text src c)) cs) '' AND '' \<and>
      condition_text src (ConditionOr cs) =
        join (map (\<lambda>c. as_group (condition_text src c)) cs) '' OR '' \<and>
      list_all (\<lambda>c. one_group (as_group (condition_text src c))) cs) \<and>
   (2 \<le> length xs \<and> 2 \<le> length ys \<and>
    list_all nonempty_groups (xs @ ys) \<and> list_all (balanced_leaves src) (xs @ ys) \<longrightarrow>
      condition_text src (ConditionAnd [ConditionOr xs, ConditionOr ys]) =
        ''('' @ condition_text src (ConditionOr xs) @ '') AND ('' @
          condition_text src (ConditionOr ys) @ '')'' \<and>
      condition_text src (ConditionOr [ConditionOr xs, ConditionOr ys]) =
        ''('' @ condition_text src (ConditionOr xs) @ '') OR ('' @
          condition_text src (ConditionOr ys) @ '')'' \<and>
      condition_text src (ConditionOr [ConditionAnd xs, ConditionAnd ys]) =
        ''('' @ condition_text src (ConditionAnd xs) @ '') OR ('' @
          condition_text src (ConditionAnd ys) @ '')'') \<and>
   (CHR ''?'' \<notin> set (source_name src @ a @ b) \<and> scalar va \<and> scalar vb \<longrightarrow>
      condition_text src (ConditionAnd [ConditionTerm a None va, ConditionTerm b None vb]) =
        ''('' @ source_name src @ ''.'' @ a @ '' = ?) AND ('' @ source_name src @ ''.'' @ b @ '' = ?)'')"
proof (intro conjI impI)
  assume h: "cs \<noteq> [] \<and> list_all nonempty_groups cs \<and> list_all (balanced_leaves src) cs"
  then have n: "list_all nonempty_groups cs" and b: "list_all (balanced_leaves src) cs"
    by simp_all
  show "condition_text src (ConditionAnd cs) =
        join (map (\<lambda>c. as_group (condition_text src c)) cs) '' AND ''"
    unfolding condition_text_And children_as_groups [OF n b] ..
  show "condition_text src (ConditionOr cs) =
        join (map (\<lambda>c. as_group (condition_text src c)) cs) '' OR ''"
    unfolding condition_text_Or children_as_groups [OF n b] ..
  show "list_all (\<lambda>c. one_group (as_group (condition_text src c))) cs"
    using n b by (rule children_one_group)
next
  assume h: "2 \<le> length xs \<and> 2 \<le> length ys \<and>
    list_all nonempty_groups (xs @ ys) \<and> list_all (balanced_leaves src) (xs @ ys)"
  then have lx: "2 \<le> length xs" and ly: "2 \<le> length ys"
    and nx: "list_all nonempty_groups xs" and ny: "list_all nonempty_groups ys"
    and bx: "list_all (balanced_leaves src) xs" and "by": "list_all (balanced_leaves src) ys"
    by simp_all
  from lx ly have ex: "xs \<noteq> []" and ey: "ys \<noteq> []" by auto
  note w = list_text_wrapped [OF lx nx bx] list_text_wrapped [OF ly ny "by"]
  have n: "list_all nonempty_groups [ConditionOr xs, ConditionOr ys]"
    "list_all nonempty_groups [ConditionAnd xs, ConditionAnd ys]"
    using ex ey nx ny by simp_all
  have b: "list_all (balanced_leaves src) [ConditionOr xs, ConditionOr ys]"
    "list_all (balanced_leaves src) [ConditionAnd xs, ConditionAnd ys]"
    using bx "by" by simp_all
  show "condition_text src (ConditionAnd [ConditionOr xs, ConditionOr ys]) =
        ''('' @ condition_text src (ConditionOr xs) @ '') AND ('' @
          condition_text src (ConditionOr ys) @ '')''"
    unfolding condition_text_And [of src "[ConditionOr xs, ConditionOr ys]"]
      children_as_groups [OF n(1) b(1)]
    by (simp add: w)
  show "condition_text src (ConditionOr [ConditionOr xs, ConditionOr ys]) =
        ''('' @ condition_text src (ConditionOr xs) @ '') OR ('' @
          condition_text src (ConditionOr ys) @ '')''"
    unfolding condition_text_Or [of src "[ConditionOr xs, ConditionOr ys]"]
      children_as_groups [OF n(1) b(1)]
    by (simp add: w)
  show "condition_text src (ConditionOr [ConditionAnd xs, ConditionAnd ys]) =
        ''('' @ condition_text src (ConditionAnd xs) @ '') OR ('' @
          condition_text src (ConditionAnd ys) @ '')''"
    unfolding condition_text_Or [of src "[ConditionAnd xs, ConditionAnd ys]"]
      children_as_groups [OF n(2) b(2)]
    by (simp add: w)
next
  assume h: "CHR ''?'' \<notin> set (source_name src @ a @ b) \<and> scalar va \<and> scalar vb"
  then have ta: "condition_text src (ConditionTerm a None va) = (source_name src @ ''.'' @ a @ '' = '') @ ''?''"
    and tb: "condition_text src (ConditionTerm b None vb) = (source_name src @ ''.'' @ b @ '' = '') @ ''?''"
    by (simp_all add: term_text)
  show "condition_text src (ConditionAnd [ConditionTerm a None va, ConditionTerm b None vb]) =
        ''('' @ source_name src @ ''.'' @ a @ '' = ?) AND ('' @ source_name src @ ''.'' @ b @ '' = ?)''"
    unfolding condition_text_And by (simp add: ta tb nest_placeholder del: append_assoc)
qed

theorem conditions_grouped_witness:
  "[or_id_name, or_raw_like] \<noteq> [] \<and> list_all nonempty_groups [or_id_name, or_raw_like] \<and>
   list_all (balanced_leaves test_source) [or_id_name, or_raw_like] \<and>
   condition_text test_source (ConditionAnd [or_id_name, or_raw_like]) =
     ''((test.id = ?) OR (test.name = ?)) AND ((CONCAT(test.name, test.description) LIKE ?) OR (test.description LIKE ?))'' \<and>
   condition_text test_source (ConditionOr [or_id_name, or_raw_like]) =
     ''((test.id = ?) OR (test.name = ?)) OR ((CONCAT(test.name, test.description) LIKE ?) OR (test.description LIKE ?))'' \<and>
   list_all (\<lambda>c. one_group (as_group (condition_text test_source c))) [or_id_name, or_raw_like] \<and>
   2 \<le> length [ConditionTerm ''a'' None (JNum 1), ConditionTerm ''b'' None (JNum 2)] \<and>
   2 \<le> length [ConditionTerm ''c'' None (JNum 3), ConditionTerm ''d'' None (JArr [JNum 4, JNum 5])] \<and>
   list_all nonempty_groups
     ([ConditionTerm ''a'' None (JNum 1), ConditionTerm ''b'' None (JNum 2)] @
      [ConditionTerm ''c'' None (JNum 3), ConditionTerm ''d'' None (JArr [JNum 4, JNum 5])]) \<and>
   list_all (balanced_leaves test_source)
     ([ConditionTerm ''a'' None (JNum 1), ConditionTerm ''b'' None (JNum 2)] @
      [ConditionTerm ''c'' None (JNum 3), ConditionTerm ''d'' None (JArr [JNum 4, JNum 5])]) \<and>
   condition_text test_source
     (ConditionAnd [ConditionOr [ConditionTerm ''a'' None (JNum 1), ConditionTerm ''b'' None (JNum 2)],
                    ConditionOr [ConditionTerm ''c'' None (JNum 3), ConditionTerm ''d'' None (JArr [JNum 4, JNum 5])]]) =
     ''((test.a = ?) OR (test.b = ?)) AND ((test.c = ?) OR (test.d = (?, ?)))'' \<and>
   CHR ''?'' \<notin> set (source_name test_source @ ''id'' @ ''name'') \<and> scalar (JNum 5) \<and> scalar (JStr ''test'') \<and>
   condition_text test_source (ConditionAnd [ConditionTerm ''id'' None (JNum 5), ConditionTerm ''name'' None (JStr ''test'')]) =
     ''(test.id = ?) AND (test.name = ?)''"
proof -
  have g: "[or_id_name, or_raw_like] \<noteq> [] \<and> list_all nonempty_groups [or_id_name, or_raw_like] \<and>
      list_all (balanced_leaves test_source) [or_id_name, or_raw_like]"
    by code_simp
  have s: "2 \<le> length [ConditionTerm ''a'' None (JNum 1), ConditionTerm ''b'' None (JNum 2)] \<and>
      2 \<le> length [ConditionTerm ''c'' None (JNum 3), ConditionTerm ''d'' None (JArr [JNum 4, JNum 5])] \<and>
      list_all nonempty_groups
        ([ConditionTerm ''a'' None (JNum 1), ConditionTerm ''b'' None (JNum 2)] @
         [ConditionTerm ''c'' None (JNum 3), ConditionTerm ''d'' None (JArr [JNum 4, JNum 5])]) \<and>
      list_all (balanced_leaves test_source)
        ([ConditionTerm ''a'' None (JNum 1), ConditionTerm ''b'' None (JNum 2)] @
         [ConditionTerm ''c'' None (JNum 3), ConditionTerm ''d'' None (JArr [JNum 4, JNum 5])])"
    by code_simp
  have t: "as_group (condition_text test_source or_id_name) = ''((test.id = ?) OR (test.name = ?))''"
    "as_group (condition_text test_source or_raw_like) =
       ''((CONCAT(test.name, test.description) LIKE ?) OR (test.description LIKE ?))''"
    "condition_text test_source
       (ConditionOr [ConditionTerm ''a'' None (JNum 1), ConditionTerm ''b'' None (JNum 2)]) =
       ''(test.a = ?) OR (test.b = ?)''"
    "condition_text test_source
       (ConditionOr [ConditionTerm ''c'' None (JNum 3), ConditionTerm ''d'' None (JArr [JNum 4, JNum 5])]) =
       ''(test.c = ?) OR (test.d = (?, ?))''"
    by code_simp+
  have p: "CHR ''?'' \<notin> set (source_name test_source @ ''id'' @ ''name'') \<and> scalar (JNum 5) \<and> scalar (JStr ''test'')"
    by (simp add: test_source_def)
  note r = conditions_grouped [where cs = "[or_id_name, or_raw_like]" and src = test_source
      and xs = "[ConditionTerm ''a'' None (JNum 1), ConditionTerm ''b'' None (JNum 2)]"
      and ys = "[ConditionTerm ''c'' None (JNum 3), ConditionTerm ''d'' None (JArr [JNum 4, JNum 5])]"
      and a = "''id''" and b = "''name''" and va = "JNum 5" and vb = "JStr ''test''"]
  from r g have c1: "condition_text test_source (ConditionAnd [or_id_name, or_raw_like]) =
        join (map (\<lambda>c. as_group (condition_text test_source c)) [or_id_name, or_raw_like]) '' AND '' \<and>
      condition_text test_source (ConditionOr [or_id_name, or_raw_like]) =
        join (map (\<lambda>c. as_group (condition_text test_source c)) [or_id_name, or_raw_like]) '' OR '' \<and>
      list_all (\<lambda>c. one_group (as_group (condition_text test_source c))) [or_id_name, or_raw_like]"
    by blast
  from r s have c2: "condition_text test_source
     (ConditionAnd [ConditionOr [ConditionTerm ''a'' None (JNum 1), ConditionTerm ''b'' None (JNum 2)],
                    ConditionOr [ConditionTerm ''c'' None (JNum 3), ConditionTerm ''d'' None (JArr [JNum 4, JNum 5])]]) =
      ''('' @ condition_text test_source
        (ConditionOr [ConditionTerm ''a'' None (JNum 1), ConditionTerm ''b'' None (JNum 2)]) @ '') AND ('' @
      condition_text test_source
        (ConditionOr [ConditionTerm ''c'' None (JNum 3), ConditionTerm ''d'' None (JArr [JNum 4, JNum 5])]) @ '')''"
    by blast
  from r p have c3: "condition_text test_source (ConditionAnd [ConditionTerm ''id'' None (JNum 5), ConditionTerm ''name'' None (JStr ''test'')]) =
      ''('' @ source_name test_source @ ''.'' @ ''id'' @ '' = ?) AND ('' @ source_name test_source @ ''.'' @ ''name'' @ '' = ?)''"
    by blast
  from c1 have c1': "condition_text test_source (ConditionAnd [or_id_name, or_raw_like]) =
     ''((test.id = ?) OR (test.name = ?)) AND ((CONCAT(test.name, test.description) LIKE ?) OR (test.description LIKE ?))''"
    "condition_text test_source (ConditionOr [or_id_name, or_raw_like]) =
     ''((test.id = ?) OR (test.name = ?)) OR ((CONCAT(test.name, test.description) LIKE ?) OR (test.description LIKE ?))''"
    "list_all (\<lambda>c. one_group (as_group (condition_text test_source c))) [or_id_name, or_raw_like]"
    by (simp_all add: t)
  from c2 have c2': "condition_text test_source
     (ConditionAnd [ConditionOr [ConditionTerm ''a'' None (JNum 1), ConditionTerm ''b'' None (JNum 2)],
                    ConditionOr [ConditionTerm ''c'' None (JNum 3), ConditionTerm ''d'' None (JArr [JNum 4, JNum 5])]]) =
     ''((test.a = ?) OR (test.b = ?)) AND ((test.c = ?) OR (test.d = (?, ?)))''"
    by (simp add: t)
  from c3 have c3': "condition_text test_source (ConditionAnd [ConditionTerm ''id'' None (JNum 5), ConditionTerm ''name'' None (JStr ''test'')]) =
     ''(test.id = ?) AND (test.name = ?)''"
    by (simp add: test_source_def)
  from g s p c1' c2' c3' show ?thesis by blast
qed

text \<open>
  An empty list compiles to the empty text, which gets no brackets: the group vanishes
  and its operator stays. A fragment that closes a bracket it did not open ends the
  group that its parent puts it in.
\<close>

theorem conditions_grouped_counterexample:
  "condition_text test_source (ConditionAnd [ConditionAnd [], ConditionTerm ''name'' None (JStr ''test'')])
     = '' AND (test.name = ?)'' \<and>
   condition_text test_source (ConditionAnd []) = [] \<and>
   \<not> one_group (condition_text test_source (ConditionAnd [])) \<and>
   condition_text test_source (ConditionAnd [unbalanced_raw, ConditionTerm ''name'' None (JStr ''test'')])
     = ''(a = 1) OR (b = 2) AND (test.name = ?)'' \<and>
   \<not> one_group ''(a = 1) OR (b = 2)''"
  by code_simp

subsection \<open>Read queries\<close>

lemma addQueryConditions_append:
  "addQueryConditions wheres q =
     wheres @ (case conditions q of None \<Rightarrow> [] | Some cs \<Rightarrow> map (addQueryCondition (source q)) cs)"
proof (cases "conditions q")
  case None
  then show ?thesis by (simp add: addQueryConditions_def)
next
  case (Some cs)
  have "foldl (\<lambda>wheres condition. wheres @ [addQueryCondition (source q) condition]) wheres cs
          = wheres @ map (addQueryCondition (source q)) cs"
    by (induction cs arbitrary: wheres) simp_all
  with Some show ?thesis by (simp add: addQueryConditions_def)
qed

lemma sel_where_field [simp]: "sel_where (field sql f) = sel_where sql"
  by (simp add: field_def)

lemma sel_where_addQueryFields [simp]: "sel_where (addQueryFields sql q) = sel_where sql"
proof (cases "field_list q")
  case None
  then show ?thesis by (simp add: addQueryFields_def)
next
  case (Some fs)
  have "sel_where (foldl (\<lambda>sql f. field sql (case f of FieldRaw r \<Rightarrow> fragment r
                                       | FieldName n \<Rightarrow> source_name (source q) @ ''.'' @ n)) sql fs)
        = sel_where sql"
    by (induction fs arbitrary: sql) simp_all
  with Some show ?thesis by (simp add: addQueryFields_def)
qed

lemma sel_where_addQueryJoins [simp]: "sel_where (addQueryJoins sql q counting) = sel_where sql"
proof (cases "joins q")
  case None
  then show ?thesis by (simp add: addQueryJoins_def)
next
  case (Some js)
  have "sel_where (foldl (\<lambda>sql j.
              let alias = join (join_path j) JOIN_MARKER;
                  self = join (butlast (join_path j)) JOIN_MARKER;
                  sql' = left_join sql (join_source j) alias
                           (alias @ ''.'' @ join_to j @ '' = '' @ self @ ''.'' @ join_from j)
              in if counting then sql'
                 else field sql' (''row_to_json('' @ alias @ ''.*) AS '' @ alias)) sql js)
        = sel_where sql"
    by (induction js arbitrary: sql) (simp_all add: Let_def left_join_def)
  with Some show ?thesis by (simp add: addQueryJoins_def)
qed

lemma sel_where_addQueryOrder [simp]: "sel_where (addQueryOrder sql q) = sel_where sql"
proof (cases "order_by q")
  case None
  then show ?thesis by (simp add: addQueryOrder_def)
next
  case (Some os)
  have "sel_where (foldl (\<lambda>sql ord. order sql (order_field ord) (toLowerCase_is_asc (order_direction ord))) sql os)
        = sel_where sql"
    by (induction os arbitrary: sql) (simp_all add: order_def)
  with Some show ?thesis by (simp add: addQueryOrder_def)
qed

lemma addQueryPagination_where:
  "addQueryPagination sql q = Inr sql' \<Longrightarrow> sel_where sql' = sel_where sql"
  by (auto simp: addQueryPagination_def limit_def offset_def sanitizeLimitOffset_def
      split: option.splits sum.splits if_splits)

text \<open>\<^verbatim>\<open>readQuery\<close> calls \<^verbatim>\<open>addQueryConditions\<close> before and after \<^verbatim>\<open>addQueryOrder\<close>.\<close>

lemma readQuery_where:
  assumes "readQuery q = Inr sql"
  shows "sel_where sql =
     (case conditions q of None \<Rightarrow> []
      | Some cs \<Rightarrow> map (addQueryCondition (source q)) cs @ map (addQueryCondition (source q)) cs)"
  using addQueryPagination_where [OF assms [unfolded readQuery_def Let_def]]
  by (simp add: addQueryConditions_append select_from_def split: option.splits)

text \<open>The Count, Delete and Update queries add each condition once.\<close>

lemma countQuery_where:
  "sel_where (countQuery q) =
     (case conditions q of None \<Rightarrow> [] | Some cs \<Rightarrow> map (addQueryCondition (source q)) cs)"
  by (simp add: countQuery_def Let_def addQueryConditions_append select_from_def)

lemma deleteQuery_where:
  "del_where (deleteQuery q) =
     (case conditions q of None \<Rightarrow> [] | Some cs \<Rightarrow> map (addQueryCondition (source q)) cs)"
  by (simp add: deleteQuery_def Let_def addQueryConditions_append)

lemma updateQuery_where:
  "updateQuery q = (q', Inr sql) \<Longrightarrow>
   upd_where sql =
     (case conditions q of None \<Rightarrow> [] | Some cs \<Rightarrow> map (addQueryCondition (source q)) cs)"
  by (auto simp: updateQuery_def Let_def addQueryConditions_append addQueryJoinCTEs_def
      split: prod.splits sum.splits option.splits)

text \<open>
  C1 asks for one WHERE term and one bound value for each condition of a Read query. The
  code adds each condition twice: the query of the repository's source \<open>test\<close> with the
  one condition \<open>id = 2\<close> compiles to two terms and two values.
\<close>

theorem readQuery_conditions_twice:
  "map_sum id select_toParam (readQuery read_by_id) =
     Inr (''SELECT test.* FROM test WHERE (test.id = $1) AND (test.id = $2)'', [JNum 2, JNum 2])"
  by code_simp

lemma sel_joins_field [simp]: "sel_joins (field sql f) = sel_joins sql"
  by (simp add: field_def)

lemma sel_joins_addQueryFields [simp]: "sel_joins (addQueryFields sql q) = sel_joins sql"
proof (cases "field_list q")
  case None
  then show ?thesis by (simp add: addQueryFields_def)
next
  case (Some fs)
  have "sel_joins (foldl (\<lambda>sql f. field sql (case f of FieldRaw r \<Rightarrow> fragment r
                                       | FieldName n \<Rightarrow> source_name (source q) @ ''.'' @ n)) sql fs)
        = sel_joins sql"
    by (induction fs arbitrary: sql) simp_all
  with Some show ?thesis by (simp add: addQueryFields_def)
qed

lemma sel_joins_addQueryJoins:
  "sel_joins (addQueryJoins sql q counting) =
     sel_joins sql @
       (case joins q of None \<Rightarrow> []
        | Some js \<Rightarrow>
            map (\<lambda>j. (join_source j, join (join_path j) JOIN_MARKER,
                   join (join_path j) JOIN_MARKER @ ''.'' @ join_to j @ '' = '' @
                     join (butlast (join_path j)) JOIN_MARKER @ ''.'' @ join_from j)) js)"
proof (cases "joins q")
  case None
  then show ?thesis by (simp add: addQueryJoins_def)
next
  case (Some js)
  have "sel_joins (foldl (\<lambda>sql j.
              let alias = join (join_path j) JOIN_MARKER;
                  self = join (butlast (join_path j)) JOIN_MARKER;
                  sql' = left_join sql (join_source j) alias
                           (alias @ ''.'' @ join_to j @ '' = '' @ self @ ''.'' @ join_from j)
              in if counting then sql'
                 else field sql' (''row_to_json('' @ alias @ ''.*) AS '' @ alias)) sql js)
        = sel_joins sql @
            map (\<lambda>j. (join_source j, join (join_path j) JOIN_MARKER,
                   join (join_path j) JOIN_MARKER @ ''.'' @ join_to j @ '' = '' @
                     join (butlast (join_path j)) JOIN_MARKER @ ''.'' @ join_from j)) js"
    by (induction js arbitrary: sql) (simp_all add: Let_def left_join_def)
  with Some show ?thesis by (simp add: addQueryJoins_def)
qed

lemma sel_joins_addQueryOrder [simp]: "sel_joins (addQueryOrder sql q) = sel_joins sql"
proof (cases "order_by q")
  case None
  then show ?thesis by (simp add: addQueryOrder_def)
next
  case (Some os)
  have "sel_joins (foldl (\<lambda>sql ord. order sql (order_field ord) (toLowerCase_is_asc (order_direction ord))) sql os)
        = sel_joins sql"
    by (induction os arbitrary: sql) (simp_all add: order_def)
  with Some show ?thesis by (simp add: addQueryOrder_def)
qed

lemma addQueryPagination_joins:
  "addQueryPagination sql q = Inr sql' \<Longrightarrow> sel_joins sql' = sel_joins sql"
  by (auto simp: addQueryPagination_def limit_def offset_def sanitizeLimitOffset_def
      split: option.splits sum.splits if_splits)

lemma readQuery_joins:
  assumes "readQuery q = Inr sql" and "joins q = Some js"
  shows "sel_joins sql =
     map (\<lambda>j. (join_source j, join (join_path j) JOIN_MARKER,
            join (join_path j) JOIN_MARKER @ ''.'' @ join_to j @ '' = '' @
              join (butlast (join_path j)) JOIN_MARKER @ ''.'' @ join_from j)) js"
  using addQueryPagination_joins [OF assms(1) [unfolded readQuery_def Let_def]] assms(2)
  by (simp add: sel_joins_addQueryJoins select_from_def)

text \<open>
  C4, as the code has it. Each join of a Read query becomes one LEFT JOIN entry: the
  joined source, the alias (the path segments joined with the marker), and the condition
  alias.to = parent.from, where the parent is the path without its last segment, joined
  with the marker. For a path of the root source's name and one segment the parent is the
  root source's name; for a path of one segment the parent is the empty text.
\<close>

theorem readQuery_left_joins:
  "(readQuery q = Inr sql \<and> joins q = Some js \<longrightarrow>
      sel_joins sql =
        map (\<lambda>j. (join_source j, join (join_path j) JOIN_MARKER,
               join (join_path j) JOIN_MARKER @ ''.'' @ join_to j @ '' = '' @
                 join (butlast (join_path j)) JOIN_MARKER @ ''.'' @ join_from j)) js) \<and>
   (join_path j = [root, segment] \<longrightarrow>
      join (join_path j) JOIN_MARKER = root @ JOIN_MARKER @ segment \<and>
      join (butlast (join_path j)) JOIN_MARKER = root) \<and>
   (join_path j = [segment] \<longrightarrow>
      join (join_path j) JOIN_MARKER = segment \<and> join (butlast (join_path j)) JOIN_MARKER = [])"
  using readQuery_joins by auto

theorem readQuery_left_joins_witness:
  "joins read_users = Some [users_join] \<and> join_path users_join = [''test'', ''users''] \<and>
   map_sum id sel_joins (readQuery read_users) =
     Inr [(''users'', ''test'' @ JOIN_MARKER @ ''users'',
           ''test'' @ JOIN_MARKER @ ''users.id = test.owner_id'')] \<and>
   map_sum id select_toParam (readQuery read_users) =
     Inr (''SELECT test.*, row_to_json(test'' @ JOIN_MARKER @ ''users.*) AS test'' @ JOIN_MARKER @
            ''users FROM test LEFT JOIN users AS test'' @ JOIN_MARKER @ ''users ON (test'' @
            JOIN_MARKER @ ''users.id = test.owner_id)'', []) \<and>
   join_path owner_join = [''owner''] \<and> join (butlast (join_path owner_join)) JOIN_MARKER = []"
proof -
  obtain sql where r: "readQuery read_users = Inr sql"
    by (simp add: readQuery_def read_users_def read_test_def addQueryPagination_def Let_def)
  have j: "joins read_users = Some [users_join]" by (simp add: read_users_def)
  have p: "join_path users_join = [''test'', ''users'']" by (simp add: users_join_def)
  have o: "join_path owner_join = [''owner'']" by (simp add: owner_join_def)
  have t: "map_sum id select_toParam (readQuery read_users) =
     Inr (''SELECT test.*, row_to_json(test'' @ JOIN_MARKER @ ''users.*) AS test'' @ JOIN_MARKER @
            ''users FROM test LEFT JOIN users AS test'' @ JOIN_MARKER @ ''users ON (test'' @
            JOIN_MARKER @ ''users.id = test.owner_id)'', [])"
    by code_simp
  from readQuery_left_joins [of read_users sql "[users_join]" users_join "''test''" "''users''"]
    r j p
  have "sel_joins sql = [(''users'', ''test'' @ JOIN_MARKER @ ''users'',
           ''test'' @ JOIN_MARKER @ ''users.id = test.owner_id'')]"
    by (simp add: users_join_def)
  moreover from readQuery_left_joins [of read_users sql "[users_join]" owner_join _ "''owner''"] o
  have "join (butlast (join_path owner_join)) JOIN_MARKER = []" by blast
  ultimately show ?thesis using r j p o t by simp
qed

text \<open>
  A join with a path of one segment on the source \<open>test\<close>: the parent is empty, it is
  not the name of the root source.
\<close>

theorem readQuery_left_joins_counterexample:
  "source_name (source read_owner) = ''test'' \<and>
   map_sum id sel_joins (readQuery read_owner) = Inr [(''users'', ''owner'', ''owner.id = .owner_id'')] \<and>
   map_sum id sel_joins (readQuery read_owner) \<noteq> Inr [(''users'', ''owner'', ''owner.id = test.owner_id'')] \<and>
   map_sum id select_toParam (readQuery read_owner) =
     Inr (''SELECT test.*, row_to_json(owner.*) AS owner FROM test LEFT JOIN users AS owner ON (owner.id = .owner_id)'', [])"
  by code_simp

lemma round_double_exact: "\<bar>x\<bar> < 2 ^ 53 \<Longrightarrow> round_double x = x"
  by (simp add: round_double_def)

lemma page_offset_exact:
  assumes "0 < s" and "1 \<le> n" and "s * (n - 1) < 2 ^ 53"
  shows "js_mul s (js_sub n 1) = s * (n - 1)"
proof -
  have "1 * (n - 1) \<le> s * (n - 1)"
    by (rule mult_right_mono) (use assms in simp_all)
  with assms have "\<bar>n - 1\<bar> < 2 ^ 53" by simp
  then have "js_sub n 1 = n - 1" by (simp add: js_sub_def round_double_exact)
  moreover have "0 \<le> s * (n - 1)" using assms by simp
  then have "\<bar>s * (n - 1)\<bar> < 2 ^ 53" using assms(3) by simp
  ultimately show ?thesis by (simp add: js_mul_def round_double_exact)
qed

lemma join_snoc2:
  "xs \<noteq> [] \<Longrightarrow> join (xs @ [a, b]) sep = join xs sep @ sep @ a @ sep @ b"
  by (induction xs sep rule: join.induct) simp_all

lemma select_param_limit_offset:
  assumes "sel_limit sql = Some l" and "sel_offset sql = Some off"
  shows "\<exists>pre vs. select_param sql = (pre @ '' LIMIT ? OFFSET ?'', vs @ [JNum l, JNum off])"
proof -
  let ?blocks = "[(''SELECT'', []), (fields_param sql, []), (from_param sql, []), joins_param sql,
             where_param (sel_where sql), order_param sql]"
  let ?texts = "filter (\<lambda>t. t \<noteq> []) (map fst ?blocks)"
  have ne: "?texts \<noteq> []" by simp
  have "select_param sql =
      (join (?texts @ [''LIMIT ?'', ''OFFSET ?'']) '' '',
       concat (map snd ?blocks) @ [JNum l, JNum off])"
    using assms by (simp add: select_param_def verb_value_param_def Let_def)
  also have "join (?texts @ [''LIMIT ?'', ''OFFSET ?'']) '' '' = join ?texts '' '' @ '' LIMIT ? OFFSET ?''"
    using join_snoc2 [OF ne, of "''LIMIT ?''" "''OFFSET ?''" "'' ''"] by simp
  finally show ?thesis by blast
qed

lemma readQuery_page:
  assumes "page q = Some p" and "0 < page_size p" and "1 \<le> page_number p"
    and "page_size p * (page_number p - 1) < 2 ^ 53"
  shows "\<exists>sql. readQuery q = Inr sql \<and> sel_limit sql = Some (page_size p) \<and>
           sel_offset sql = Some (page_size p * (page_number p - 1))"
proof -
  have "0 \<le> page_size p * (page_number p - 1)" using assms by simp
  then have o: "sanitizeLimitOffset (page_size p * (page_number p - 1))
                  = Inr (page_size p * (page_number p - 1))"
    unfolding sanitizeLimitOffset_def by (simp only: not_less [symmetric] if_False)
  have l: "sanitizeLimitOffset (page_size p) = Inr (page_size p)"
    using assms(2) by (simp add: sanitizeLimitOffset_def)
  show ?thesis
    using assms(1) page_offset_exact [OF assms(2-4)] o l
    by (simp add: readQuery_def Let_def addQueryPagination_def limit_def offset_def)
qed

text \<open>
  C7, as the code has it. For a page with a size above 0 and a number from 1 on, where the
  size and the product size * (number - 1) are below \<open>2 ^ 53\<close>, the Read query compiles,
  its limit is the size and its offset is the product; the text ends with the LIMIT and
  OFFSET placeholders, bound to these two values; the offset is not negative, and it is 0
  for the number 1.
\<close>

theorem pagination_law:
  "page q = Some p \<and> 0 < page_size p \<and> page_size p < 2 ^ 53 \<and> 1 \<le> page_number p \<and>
   page_size p * (page_number p - 1) < 2 ^ 53 \<longrightarrow>
     (\<exists>sql pre vs. readQuery q = Inr sql \<and>
        sel_limit sql = Some (page_size p) \<and>
        sel_offset sql = Some (page_size p * (page_number p - 1)) \<and>
        select_param sql =
          (pre @ '' LIMIT ? OFFSET ?'', vs @ [JNum (page_size p), JNum (page_size p * (page_number p - 1))])) \<and>
     0 \<le> page_size p * (page_number p - 1) \<and>
     (page_number p = 1 \<longrightarrow> page_size p * (page_number p - 1) = 0)"
proof (intro impI conjI)
  assume h: "page q = Some p \<and> 0 < page_size p \<and> page_size p < 2 ^ 53 \<and> 1 \<le> page_number p \<and>
   page_size p * (page_number p - 1) < 2 ^ 53"
  then obtain sql where s: "readQuery q = Inr sql" "sel_limit sql = Some (page_size p)"
      "sel_offset sql = Some (page_size p * (page_number p - 1))"
    using readQuery_page [of q p] by blast
  from select_param_limit_offset [OF s(2,3)] s
  show "\<exists>sql pre vs. readQuery q = Inr sql \<and>
        sel_limit sql = Some (page_size p) \<and>
        sel_offset sql = Some (page_size p * (page_number p - 1)) \<and>
        select_param sql =
          (pre @ '' LIMIT ? OFFSET ?'', vs @ [JNum (page_size p), JNum (page_size p * (page_number p - 1))])"
    by blast
  show "0 \<le> page_size p * (page_number p - 1)" using h by simp
qed simp

theorem pagination_law_witness:
  "page read_page = Some \<lparr>page_size = 5, page_number = 4\<rparr> \<and> (0::int) < 5 \<and> (5::int) < 2 ^ 53 \<and>
   (1::int) \<le> 4 \<and> (5::int) * (4 - 1) < 2 ^ 53 \<and>
   map_sum id (\<lambda>sql. (sel_limit sql, sel_offset sql)) (readQuery read_page) = Inr (Some 5, Some 15) \<and>
   map_sum id select_toParam (readQuery read_page) =
     Inr (''SELECT test.* FROM test LIMIT $1 OFFSET $2'', [JNum 5, JNum 15])"
proof -
  have p: "page read_page = Some \<lparr>page_size = 5, page_number = 4\<rparr>" by (simp add: read_page_def)
  have t: "map_sum id select_toParam (readQuery read_page) =
     Inr (''SELECT test.* FROM test LIMIT $1 OFFSET $2'', [JNum 5, JNum 15])"
    by code_simp
  from pagination_law [of read_page "\<lparr>page_size = 5, page_number = 4\<rparr>"] p
  obtain sql where "readQuery read_page = Inr sql" "sel_limit sql = Some 5" "sel_offset sql = Some 15"
    by auto
  then show ?thesis using p t by simp
qed

text \<open>
  Beyond \<open>2 ^ 53\<close> the product is rounded: size 94906267 on page 94906268 gives the
  offset 9007199515875288, one less than the product.
\<close>

theorem pagination_law_counterexample:
  "page read_big_page = Some \<lparr>page_size = 94906267, page_number = 94906268\<rparr> \<and>
   (94906267::int) * (94906268 - 1) = 9007199515875289 \<and>
   map_sum id sel_offset (readQuery read_big_page) = Inr (Some 9007199515875288)"
  by code_simp

subsection \<open>Create queries\<close>

text \<open>A join whose value in the data is not an object leaves the builder and the data alone.\<close>

lemma join_cte_skips:
  "\<not> typeof_object (path (join_path j) q_data) \<Longrightarrow> join_cte q_data state j = Inr state"
  by (cases state) (simp add: join_cte_def)

text \<open>
  A comparison that is positive whatever it is given turns the array round, so the joins
  of a query, when all their paths have a segment, come back reversed.
\<close>

lemma insert_down_positive:
  "\<forall>t\<in>set placed. 0 < comparefn t element \<Longrightarrow>
   insert_down comparefn element placed = placed @ [element]"
  by (induction placed) simp_all

lemma sort_fold_positive:
  "\<forall>j\<in>set (placed @ a). \<forall>e. 0 < comparefn j e \<Longrightarrow>
   foldl (\<lambda>sorted element. insert_down comparefn element sorted) placed a = placed @ a"
proof (induction a arbitrary: placed)
  case Nil
  then show ?case by simp
next
  case (Cons x a)
  have "insert_down comparefn x placed = placed @ [x]"
    by (rule insert_down_positive) (use Cons.prems in simp)
  moreover have "foldl (\<lambda>sorted element. insert_down comparefn element sorted) (placed @ [x]) a
                   = (placed @ [x]) @ a"
    by (rule Cons.IH) (use Cons.prems in simp)
  ultimately show ?case by simp
qed

lemma array_sort_positive:
  "\<forall>j\<in>set a. \<forall>e. 0 < comparefn j e \<Longrightarrow> array_sort comparefn a = rev a"
  using sort_fold_positive [of "[]" a comparefn] by (simp add: array_sort_def)

lemma addQueryJoinCTEs_reverses:
  assumes "joins q = Some js" and "\<forall>j\<in>set js. join_path j \<noteq> []"
  shows "joins (fst (addQueryJoinCTEs withs q)) = Some (rev js)"
proof -
  have "array_sort (\<lambda>join other. int (length (join_path join))) js = rev js"
    by (rule array_sort_positive) (use assms(2) in simp)
  with assms(1) show ?thesis by (simp add: addQueryJoinCTEs_def Let_def)
qed

text \<open>
  C2 asks that compiling a query twice gives the same text and values, and that the
  query is left as it was. The query of the repository's test for nested inserts, with
  the joins \<open>owner\<close> and \<open>project\<close>, compiles to the text that the test expects; the
  sort has turned the joins of the query round, and compiling the query again gives the
  tables of the WITH clause, and the values, in the other order.
\<close>

theorem compile_twice_differs:
  "snd (compileCreate create_test) =
     Inr (''WITH project AS (INSERT INTO projects (name) VALUES ($1) RETURNING id), owner AS (INSERT INTO users (name) VALUES ($2) RETURNING id) INSERT INTO tasks (name, project, owner) VALUES ($3, (SELECT id FROM project), (SELECT id FROM owner))'',
          [JStr ''new project'', JStr ''new user'', JStr ''new task'']) \<and>
   snd (compileCreate (fst (compileCreate create_test))) =
     Inr (''WITH owner AS (INSERT INTO users (name) VALUES ($1) RETURNING id), project AS (INSERT INTO projects (name) VALUES ($2) RETURNING id) INSERT INTO tasks (name, project, owner) VALUES ($3, (SELECT id FROM project), (SELECT id FROM owner))'',
          [JStr ''new user'', JStr ''new project'', JStr ''new task'']) \<and>
   joins create_test = Some [owner_join, project_join] \<and>
   joins (fst (compileCreate create_test)) = Some [project_join, owner_join]"
  by code_simp

text \<open>
  C3 asks for the nested inserts in ascending order of path length, joins of equal length
  in their given order. The function handed to the sort takes one join and returns its
  path length, so the sort sees a positive number at each comparison: the two joins of
  the repository's test, both of length 1, come out in reverse order, and of a join of
  length 1 followed by one of length 2 the longer comes first.
\<close>

theorem join_ctes_order:
  "map_sum id (\<lambda>sql. map fst (ins_with sql)) (snd (createQuery create_test)) = Inr [''project'', ''owner''] \<and>
   joins create_test = Some [owner_join, project_join] \<and>
   joins create_nested = Some [owner_join, address_join] \<and>
   joins (fst (createQuery create_nested)) = Some [address_join, owner_join]"
  by code_simp

text \<open>
  C9 asks that a join whose value is not an object, \<^verbatim>\<open>null\<close> among them, is skipped
  without an error. \<^verbatim>\<open>typeof null\<close> is \<^verbatim>\<open>'object'\<close>: the join is not skipped, and
  mapping over \<^verbatim>\<open>null\<close> throws.
\<close>

theorem null_join_throws:
  "path (join_path owner_join) (data create_null_owner) = JNull \<and>
   snd (createQuery create_null_owner) = Inl (TypeError ''Cannot read property 'fantasy-land/map' of null'')"
  by code_simp

end
